theory Spec2Isabelle
  imports Complex_Main
begin

section \<open>Errors, scalars and the observable trace\<close>

text \<open>
  The exceptions the harness can raise. \<open>NoCheckpointFound\<close> is the
  \<^verbatim>\<open>Exception("No checkpoint found at '%s'" % ckpt)\<close> of \<^verbatim>\<open>__load_model__\<close>; the
  others are raised by the Python runtime or by the tensor library: a missing dictionary
  key, an operand of the wrong kind, a division or modulo by zero, two flattened
  tensors whose sizes cannot be compared elementwise, and the operating system's refusal
  to create a directory or to open a file for writing (\<^verbatim>\<open>FileNotFoundError\<close>,
  \<^verbatim>\<open>NotADirectoryError\<close>, \<^verbatim>\<open>IsADirectoryError\<close>, \<^verbatim>\<open>PermissionError\<close> and the other
  subclasses of \<^verbatim>\<open>OSError\<close>), with the path it was raised for.
\<close>

datatype error =
    NoCheckpointFound string
  | KeyError string
  | TypeError
  | ZeroDivisionError
  | SizeMismatch
  | OSError string

text \<open>
  Scalars of the tensor library are modelled as real numbers; rounding is outside the
  model. The one non-number that the code of this file can produce by itself, the
  \<^verbatim>\<open>nan\<close> that \<^verbatim>\<open>torch.mean\<close> returns for an empty tensor, is a value of its own.
\<close>

datatype scalar = Num real | NaN

datatype loader = TrainLoader | ValLoader | TestLoader

text \<open>
  What a run does that can be observed from outside, in the order it happens: the lines
  it prints and the library calls the claims speak about.
  \<^item> \<open>Print\<close>: a \<^verbatim>\<open>print\<close> of a fixed line;
  \<^item> \<open>Batch\<close>: one pass through the training loop: its index \<open>it\<close> and the parameters
    the model held when \<^verbatim>\<open>forward_base\<close> was called;
  \<^item> \<open>TrainProgress\<close>: the progress line of line 153 (step, average loss, accuracy in percent);
  \<^item> \<open>EvalProgress\<close>: the progress line of line 210;
  \<^item> \<open>Episode\<close>: one iteration of the evaluation loop: the loader the episode was drawn
    from, the parameters the model held when \<^verbatim>\<open>forward_new\<close> was called, the accuracy read;
  \<^item> \<open>Validated\<close>: \<^verbatim>\<open>acc = self.eval(...)\<close> returned at loop index \<open>it\<close>;
  \<^item> \<open>TorchSave\<close>: \<^verbatim>\<open>torch.save\<close> wrote the file at that path;
  \<^item> \<open>TestAccuracy\<close>: the final \<^verbatim>\<open>print("Test accuracy: ...")\<close>.
\<close>

datatype 'p event =
    Print string
  | Batch int 'p
  | TrainProgress int real real
  | EvalProgress int real
  | Episode loader 'p real
  | Validated int real
  | TorchSave string
  | TestAccuracy real

section \<open>The model base class\<close>

text \<open>
  \<^verbatim>\<open>Model\<close> keeps its parameters (opaque, of type \<open>'p\<close>) and the two scalars
  \<^verbatim>\<open>_loss\<close> and \<^verbatim>\<open>_accuracy\<close> that a forward pass of a concrete subclass sets.
\<close>

record 'p model =
  params :: 'p
  m_loss :: real
  m_accuracy :: real

definition loss :: "'p model \<Rightarrow> real" where
  "loss m = m_loss m"

definition accuracy :: "'p model \<Rightarrow> real" where
  "accuracy m = m_accuracy m"

definition state_dict :: "'p model \<Rightarrow> 'p" where
  "state_dict m = params m"

text \<open>
  \<^verbatim>\<open>pred.view(-1) == label.view(-1)\<close>: the elementwise comparison of two flattened
  tensors. Equal sizes compare position by position; a tensor of size one is broadcast
  against the other; any other pair of sizes is an error of the library.
\<close>

definition eq_flat :: "'a list \<Rightarrow> 'a list \<Rightarrow> error + bool list" where
  "eq_flat pred label =
     (if length pred = length label then Inr (map (\<lambda>(p, l). p = l) (zip pred label))
      else if length pred = 1 then Inr (map (\<lambda>l. hd pred = l) label)
      else if length label = 1 then Inr (map (\<lambda>p. p = hd label) pred)
      else Inl SizeMismatch)"

text \<open>\<^verbatim>\<open>.type(torch.FloatTensor)\<close>: True becomes 1, False becomes 0.\<close>

definition to_float :: "bool list \<Rightarrow> real list" where
  "to_float bs = map (\<lambda>b. if b then 1 else 0) bs"

text \<open>\<^verbatim>\<open>torch.mean\<close>: the sum over the number of elements; \<^verbatim>\<open>nan\<close> for no elements.\<close>

definition torch_mean :: "real list \<Rightarrow> scalar" where
  "torch_mean xs = (if xs = [] then NaN else Num (sum_list xs / real (length xs)))"

text \<open>\<^verbatim>\<open>Model.__accuracy__\<close> (line 41).\<close>

definition Model_accuracy :: "'a list \<Rightarrow> 'a list \<Rightarrow> error + scalar" where
  "Model_accuracy pred label =
     (case eq_flat pred label of
        Inl e \<Rightarrow> Inl e
      | Inr bs \<Rightarrow> Inr (torch_mean (to_float bs)))"

section \<open>Checkpoints and the file system\<close>

text \<open>
  A checkpoint is the Python dictionary that \<^verbatim>\<open>torch.save\<close> writes and
  \<^verbatim>\<open>torch.load\<close> returns: keys are strings, a value is a parameter state or an integer.
  A path of the file system names a directory, a file holding such a dictionary, or
  nothing.
\<close>

datatype 'p pyval = StateDict 'p | IntVal int

type_synonym 'p checkpoint = "string \<Rightarrow> 'p pyval option"

datatype 'p node = Dir | File "string \<Rightarrow> 'p pyval option"

type_synonym 'p filesystem = "string \<Rightarrow> 'p node option"

definition isfile :: "'p filesystem \<Rightarrow> string \<Rightarrow> bool" where
  "isfile fsys path = (case fsys path of Some (File c) \<Rightarrow> True | _ \<Rightarrow> False)"

text \<open>\<^verbatim>\<open>os.path.exists\<close>; the empty path names nothing.\<close>

definition path_exists :: "'p filesystem \<Rightarrow> string \<Rightarrow> bool" where
  "path_exists fsys path = (path \<noteq> [] \<and> fsys path \<noteq> None)"

text \<open>
  \<^verbatim>\<open>os.path.join\<close> of two components (POSIX): an absolute second component replaces
  the first; otherwise the two are joined by one slash unless the first is empty or
  already ends in one.
\<close>

definition path_join :: "string \<Rightarrow> string \<Rightarrow> string" where
  "path_join a b =
     (if b \<noteq> [] \<and> hd b = CHR ''/'' then b
      else if a = [] \<or> last a = CHR ''/'' then a @ b
      else a @ ''/'' @ b)"

text \<open>\<^verbatim>\<open>d[key]\<close> on a dictionary.\<close>

definition getitem :: "'p checkpoint \<Rightarrow> string \<Rightarrow> error + 'p pyval" where
  "getitem d k = (case d k of None \<Rightarrow> Inl (KeyError k) | Some v \<Rightarrow> Inr v)"

text \<open>\<^verbatim>\<open>model.load_state_dict(v)\<close>: the parameters become those of \<open>v\<close>.\<close>

definition load_state_dict :: "'p pyval \<Rightarrow> 'p model \<Rightarrow> error + 'p model" where
  "load_state_dict v m =
     (case v of StateDict p \<Rightarrow> Inr (m\<lparr>params := p\<rparr>) | IntVal i \<Rightarrow> Inl TypeError)"

text \<open>
  \<^verbatim>\<open>Framework.__load_model__\<close> (lines 61-71): the dictionary stored at the path when
  the path names a file, with the line it prints; the exception otherwise.
\<close>

definition load_model :: "'p filesystem \<Rightarrow> string \<Rightarrow> (error + 'p checkpoint) \<times> 'p event list" where
  "load_model fsys ckpt =
     (case fsys ckpt of
        Some (File checkpoint) \<Rightarrow>
          (Inr checkpoint, [Print (''Successfully loaded checkpoint '' @ ckpt)])
      | _ \<Rightarrow> (Inl (NoCheckpointFound ckpt), []))"

section \<open>The collaborators and the state of a run\<close>

text \<open>
  What the harness calls but does not define: the optimizer and its scheduler, the three
  data loaders and the forward passes of the concrete model. Their state is the opaque
  world \<open>'w\<close>; batches are of type \<open>'b\<close> and episodes (a support and a query set) of
  type \<open>'e\<close>.
  \<^item> \<open>make_optimizer\<close>: lines 120-122, from learning rate, weight decay and step size;
  \<^item> \<open>scheduler_step\<close>: \<^verbatim>\<open>scheduler.step()\<close>;
  \<^item> \<open>next_batch\<close>: \<^verbatim>\<open>self.train_data_loader.next_batch(batch_size)\<close>;
  \<^item> \<open>forward_base\<close>, \<open>forward_new\<close>: the forward passes, which set loss and accuracy;
  \<^item> \<open>backward_step\<close>: \<^verbatim>\<open>optimizer.zero_grad(); loss.backward(); optimizer.step()\<close>;
  \<^item> \<open>next_new_relation\<close>: \<^verbatim>\<open>eval_dataset.next_new_relation(self.train_data_loader, ...)\<close>
    on the loader named first;
  \<^item> \<open>may_makedirs\<close>, \<open>may_save\<close>: the operating system's answer to creating a
    directory at a path and to opening a file at a path for writing, in a given file
    system: parent directories that are missing or are regular files, permissions and
    the like are its business, and either answer is possible.

  The forward passes of the base class raise \<^verbatim>\<open>NotImplementedError\<close>; a run needs a
  concrete subclass, and the calls into it, the loaders and the optimizer are taken to
  return; creating a directory and writing a file can raise, as defined below.
  \<^verbatim>\<open>self.item\<close> reads the number out of a one-element tensor, by either of two
  spellings that depend on the library's version; on the numbers of this model it is the
  identity. \<^verbatim>\<open>model.cuda()\<close> and \<^verbatim>\<open>model.train()\<close> move the model to the accelerator
  and switch its mode; neither changes a value modelled here, and both are left out.
\<close>

record ('p, 'w, 'b, 'e) lib =
  make_optimizer :: "real \<Rightarrow> real \<Rightarrow> int \<Rightarrow> 'p model \<Rightarrow> 'w \<Rightarrow> 'w"
  scheduler_step :: "'w \<Rightarrow> 'w"
  next_batch :: "int \<Rightarrow> 'w \<Rightarrow> 'b \<times> 'w"
  forward_base :: "'b \<Rightarrow> 'p model \<Rightarrow> 'p model"
  backward_step :: "'p model \<Rightarrow> 'w \<Rightarrow> 'p model \<times> 'w"
  next_new_relation :: "loader \<Rightarrow> int \<Rightarrow> int \<Rightarrow> int \<Rightarrow> 'w \<Rightarrow> 'e \<times> 'w"
  forward_new :: "'e \<Rightarrow> 'p model \<Rightarrow> 'p model"
  may_makedirs :: "string \<Rightarrow> 'p filesystem \<Rightarrow> bool"
  may_save :: "string \<Rightarrow> 'p filesystem \<Rightarrow> bool"

text \<open>
  The leading components of a path: what stands before each of its slashes (before the
  first one only when that is not empty). A path one of whose leading components names a
  regular file can be neither created nor opened.
\<close>

fun leading :: "string \<Rightarrow> string \<Rightarrow> string list" where
  "leading acc [] = []"
| "leading acc (c # cs) =
     (if c = CHR ''/'' \<and> acc \<noteq> [] then acc # leading (acc @ [c]) cs
      else leading (acc @ [c]) cs)"

definition under_file :: "'p filesystem \<Rightarrow> string \<Rightarrow> bool" where
  "under_file fsys path =
     list_ex (\<lambda>q. case fsys q of Some (File c) \<Rightarrow> True | _ \<Rightarrow> False) (leading [] path)"

text \<open>
  \<^verbatim>\<open>os.makedirs(path)\<close>: raises for the empty path, for a path that exists already
  and for one with a regular file among its leading components, and where the operating
  system refuses; otherwise the path names a directory afterwards (the parents it
  creates on the way are not recorded).
\<close>

definition makedirs ::
  "('p, 'w, 'b, 'e) lib \<Rightarrow> string \<Rightarrow> 'p filesystem \<Rightarrow> error + 'p filesystem" where
  "makedirs L path fsys =
     (if path = [] then Inl (OSError path)
      else if fsys path \<noteq> None then Inl (OSError path)
      else if under_file fsys path then Inl (OSError path)
      else if may_makedirs L path fsys then Inr (fsys(path \<mapsto> Dir))
      else Inl (OSError path))"

text \<open>
  \<^verbatim>\<open>torch.save(obj, path)\<close>: raises when the path names a directory or has a regular
  file among its leading components, and where the operating system refuses to open the
  file; otherwise the path names a file holding
  \<open>obj\<close> afterwards, whatever it named before. A write that raises leaves the file
  system as it was.
\<close>

definition torch_save ::
  "('p, 'w, 'b, 'e) lib \<Rightarrow> 'p checkpoint \<Rightarrow> string \<Rightarrow> 'p filesystem \<Rightarrow> error + 'p filesystem" where
  "torch_save L obj path fsys =
     (if fsys path = Some Dir then Inl (OSError path)
      else if under_file fsys path then Inl (OSError path)
      else if may_save L path fsys then Inr (fsys(path \<mapsto> File obj))
      else Inl (OSError path))"

record ('p, 'w) state =
  the_model :: "'p model"
  world :: 'w
  files :: "'p filesystem"

section \<open>Framework.eval\<close>

text \<open>
  Lines 194-199: the choice of the loader. Without a checkpoint path the validation
  loader and the model as it is; with one, the checkpoint is loaded, its
  \<^verbatim>\<open>'state_dict'\<close> becomes the model's parameters, and the test loader is used.
\<close>

definition eval_dataset ::
  "string option \<Rightarrow> ('p, 'w) state \<Rightarrow> (error + loader) \<times> ('p, 'w) state \<times> 'p event list" where
  "eval_dataset ckpt s =
     (case ckpt of
        None \<Rightarrow> (Inr ValLoader, s, [])
      | Some path \<Rightarrow>
          (case load_model (files s) path of
             (Inl e, evs) \<Rightarrow> (Inl e, s, evs)
           | (Inr checkpoint, evs) \<Rightarrow>
               (case getitem checkpoint ''state_dict'' of
                  Inl e \<Rightarrow> (Inl e, s, evs)
                | Inr v \<Rightarrow>
                    (case load_state_dict v (the_model s) of
                       Inl e \<Rightarrow> (Inl e, s, evs)
                     | Inr m \<Rightarrow> (Inr TestLoader, s\<lparr>the_model := m\<rparr>, evs)))))"

text \<open>
  Lines 203-211: the loop over \<^verbatim>\<open>range(eval_iter)\<close>, given as the list of its indices.
  \<open>iter_sample\<close> only ever counts, so it is a natural number.
\<close>

fun eval_loop ::
  "('p, 'w, 'b, 'e) lib \<Rightarrow> loader \<Rightarrow> int \<Rightarrow> int \<Rightarrow> int \<Rightarrow> int list \<Rightarrow> real \<times> nat \<Rightarrow>
   ('p, 'w) state \<Rightarrow> (real \<times> nat) \<times> ('p, 'w) state \<times> 'p event list" where
  "eval_loop L ds support_size query_size query_class [] acc s = (acc, s, [])"
| "eval_loop L ds support_size query_size query_class (it # its) acc s =
     (let (episode, w1) = next_new_relation L ds support_size query_size query_class (world s);
          m1 = forward_new L episode (the_model s);
          right = accuracy m1;
          iter_right = fst acc + right;
          iter_sample = snd acc + 1;
          evs = [Episode ds (params (the_model s)) right,
                 EvalProgress (it + 1) (100 * iter_right / real iter_sample)];
          (res, s2, evs2) =
             eval_loop L ds support_size query_size query_class its (iter_right, iter_sample)
               (s\<lparr>the_model := m1, world := w1\<rparr>)
      in (res, s2, evs @ evs2))"

text \<open>
  \<^verbatim>\<open>Framework.eval\<close> (lines 177-213). The result is the outcome (the accuracy, or the
  exception raised), the state it leaves and what it printed and called.
\<close>

definition eval ::
  "('p, 'w, 'b, 'e) lib \<Rightarrow> int \<Rightarrow> int \<Rightarrow> int \<Rightarrow> int \<Rightarrow> string option \<Rightarrow> ('p, 'w) state \<Rightarrow>
   (error + real) \<times> ('p, 'w) state \<times> 'p event list" where
  "eval L support_size query_size query_class eval_iter ckpt s =
     (case eval_dataset ckpt s of
        (Inl e, s1, evs1) \<Rightarrow> (Inl e, s1, Print [] # evs1)
      | (Inr ds, s1, evs1) \<Rightarrow>
          (case eval_loop L ds support_size query_size query_class [0 .. eval_iter - 1] (0, 0) s1 of
             ((iter_right, iter_sample), s2, evs2) \<Rightarrow>
               (if iter_sample = 0 then Inl ZeroDivisionError
                else Inr (iter_right / real iter_sample),
                s2, Print [] # evs1 @ evs2 @ [Print []])))"

section \<open>Framework.train\<close>

text \<open>
  The arguments of \<^verbatim>\<open>train\<close>, by their names in the source. The model is part of the
  state and the optimizer class part of the collaborators; \<^verbatim>\<open>test_result_dir\<close> is never
  used and \<^verbatim>\<open>cuda\<close> only selects \<^verbatim>\<open>model.cuda()\<close>.
\<close>

record train_args =
  model_name :: string
  batch_size :: int
  ckpt_dir :: string
  learning_rate :: real
  lr_step_size :: int
  weight_decay :: real
  train_iter :: int
  val_iter :: int
  val_step :: int
  test_iter :: int
  pretrain_model :: "string option"

text \<open>
  The local variables of the training loop (lines 135-139); \<^verbatim>\<open>not_best_count\<close> is
  never read or written again and is left out.
\<close>

record locals =
  best_acc :: real
  iter_loss :: real
  iter_right :: real
  iter_sample :: nat

definition init_locals :: locals where
  "init_locals = \<lparr>best_acc = 0, iter_loss = 0, iter_right = 0, iter_sample = 0\<rparr>"

definition save_path :: "train_args \<Rightarrow> string" where
  "save_path A = path_join (ckpt_dir A) (model_name A @ ''.pth.tar'')"

text \<open>
  Lines 120-128: the optimizer is built; a pretrained checkpoint, when one is given
  (a path that Python takes as true: not \<^verbatim>\<open>None\<close>, not empty), is loaded, its
  parameters restored and the first index is one past its \<^verbatim>\<open>'iter'\<close>.
\<close>

definition train_init ::
  "('p, 'w, 'b, 'e) lib \<Rightarrow> train_args \<Rightarrow> ('p, 'w) state \<Rightarrow>
   (error + int) \<times> ('p, 'w) state \<times> 'p event list" where
  "train_init L A s =
     (let s0 = s\<lparr>world := make_optimizer L (learning_rate A) (weight_decay A) (lr_step_size A)
                              (the_model s) (world s)\<rparr>;
          ev0 = [Print ''Start training...'']
      in case pretrain_model A of
           None \<Rightarrow> (Inr 0, s0, ev0)
         | Some path \<Rightarrow>
             if path = [] then (Inr 0, s0, ev0)
             else
               (case load_model (files s0) path of
                  (Inl e, evs) \<Rightarrow> (Inl e, s0, ev0 @ evs)
                | (Inr checkpoint, evs) \<Rightarrow>
                    (case getitem checkpoint ''state_dict'' of
                       Inl e \<Rightarrow> (Inl e, s0, ev0 @ evs)
                     | Inr v \<Rightarrow>
                         (case load_state_dict v (the_model s0) of
                            Inl e \<Rightarrow> (Inl e, s0, ev0 @ evs)
                          | Inr m \<Rightarrow>
                              (case getitem checkpoint ''iter'' of
                                 Inl e \<Rightarrow> (Inl e, s0\<lparr>the_model := m\<rparr>, ev0 @ evs)
                               | Inr (StateDict p) \<Rightarrow> (Inl TypeError, s0\<lparr>the_model := m\<rparr>, ev0 @ evs)
                               | Inr (IntVal i) \<Rightarrow> (Inr (i + 1), s0\<lparr>the_model := m\<rparr>, ev0 @ evs))))))"

text \<open>
  Lines 164-170: the branch taken when the validation accuracy beats the best so far.
  The line is printed, the directory is created when \<^verbatim>\<open>ckpt_dir\<close> does not exist, and
  the dictionary written holds the parameters under \<^verbatim>\<open>'state_dict'\<close> and nothing else.
  \<^verbatim>\<open>best_acc\<close> is updated last, so not when either call raises.
\<close>

definition save_best ::
  "('p, 'w, 'b, 'e) lib \<Rightarrow> train_args \<Rightarrow> real \<Rightarrow> locals \<times> ('p, 'w) state \<Rightarrow>
   error option \<times> (locals \<times> ('p, 'w) state) \<times> 'p event list" where
  "save_best L A acc ls =
     (case ls of (l, s) \<Rightarrow>
        (case (if \<not> path_exists (files s) (ckpt_dir A) then makedirs L (ckpt_dir A) (files s)
               else Inr (files s)) of
           Inl e \<Rightarrow> (Some e, (l, s), [Print ''Best checkpoint''])
         | Inr fs1 \<Rightarrow>
             (case torch_save L [''state_dict'' \<mapsto> StateDict (state_dict (the_model s))]
                     (save_path A) fs1 of
                Inl e \<Rightarrow> (Some e, (l, s\<lparr>files := fs1\<rparr>), [Print ''Best checkpoint''])
              | Inr fs2 \<Rightarrow>
                  (None, (l\<lparr>best_acc := acc\<rparr>, s\<lparr>files := fs2\<rparr>),
                   [Print ''Best checkpoint'', TorchSave (save_path A)]))))"

text \<open>
  Lines 162-170: one validation. \<^verbatim>\<open>eval\<close> is called with its default episode shape
  (10, 10, 2), \<^verbatim>\<open>eval_iter = val_iter\<close> and no checkpoint.
\<close>

definition validate ::
  "('p, 'w, 'b, 'e) lib \<Rightarrow> train_args \<Rightarrow> int \<Rightarrow> locals \<times> ('p, 'w) state \<Rightarrow>
   error option \<times> (locals \<times> ('p, 'w) state) \<times> 'p event list" where
  "validate L A it ls =
     (case ls of (l, s) \<Rightarrow>
        (case eval L 10 10 2 (val_iter A) None s of
           (Inl e, s1, evs) \<Rightarrow> (Some e, (l, s1), evs)
         | (Inr acc, s1, evs) \<Rightarrow>
             if acc > best_acc l then
               (case save_best L A acc (l, s1) of
                  (r, ls2, evs2) \<Rightarrow> (r, ls2, evs @ Validated it acc # evs2))
             else (None, (l, s1), evs @ [Validated it acc])))"

text \<open>
  Lines 141-170: the body of the training loop at index \<open>it\<close>. The two remainders by
  \<^verbatim>\<open>val_step\<close> raise when it is zero; for a non-zero divisor Python's \<^verbatim>\<open>%\<close> on
  integers is \<open>mod\<close>.
\<close>

definition train_body ::
  "('p, 'w, 'b, 'e) lib \<Rightarrow> train_args \<Rightarrow> int \<Rightarrow> locals \<times> ('p, 'w) state \<Rightarrow>
   error option \<times> (locals \<times> ('p, 'w) state) \<times> 'p event list" where
  "train_body L A it ls =
     (case ls of (l, s) \<Rightarrow>
        let w1 = scheduler_step L (world s);
            (batch_data, w2) = next_batch L (batch_size A) w1;
            m1 = forward_base L batch_data (the_model s);
            (m2, w3) = backward_step L m1 w2;
            l1 = l\<lparr>iter_loss := iter_loss l + loss m1,
                   iter_right := iter_right l + accuracy m1,
                   iter_sample := iter_sample l + 1\<rparr>;
            s1 = s\<lparr>the_model := m2, world := w3\<rparr>;
            ev1 = [Batch it (params (the_model s)),
                   TrainProgress (it + 1) (iter_loss l1 / real (iter_sample l1))
                     (100 * iter_right l1 / real (iter_sample l1))]
        in if val_step A = 0 then (Some ZeroDivisionError, (l1, s1), ev1)
           else
             let l2 = (if it mod val_step A = 0
                       then l1\<lparr>iter_loss := 0, iter_right := 0, iter_sample := 0\<rparr> else l1)
             in if (it + 1) mod val_step A = 0 then
                  (case validate L A it (l2, s1) of (r, ls3, evs) \<Rightarrow> (r, ls3, ev1 @ evs))
                else (None, (l2, s1), ev1))"

text \<open>Line 140: the loop, over the list of its indices; an exception ends it.\<close>

fun train_loop ::
  "('p, 'w, 'b, 'e) lib \<Rightarrow> train_args \<Rightarrow> int list \<Rightarrow> locals \<times> ('p, 'w) state \<Rightarrow>
   error option \<times> (locals \<times> ('p, 'w) state) \<times> 'p event list" where
  "train_loop L A [] ls = (None, ls, [])"
| "train_loop L A (it # its) ls =
     (case train_body L A it ls of
        (Some e, ls1, evs) \<Rightarrow> (Some e, ls1, evs)
      | (None, ls1, evs) \<Rightarrow>
          (case train_loop L A its ls1 of (r, ls2, evs2) \<Rightarrow> (r, ls2, evs @ evs2)))"

text \<open>Lines 172-173: the two lines printed when the loop is over.\<close>

definition finish_lines :: "train_args \<Rightarrow> 'p event list" where
  "finish_lines A = [Print ''####################'', Print (''Finish training '' @ model_name A)]"

text \<open>
  \<^verbatim>\<open>Framework.train\<close> (lines 82-175): initialisation, the loop over
  \<^verbatim>\<open>range(start_iter, start_iter + train_iter)\<close>, and the test evaluation on the
  checkpoint at \<open>save_path\<close>.
\<close>

definition train ::
  "('p, 'w, 'b, 'e) lib \<Rightarrow> train_args \<Rightarrow> ('p, 'w) state \<Rightarrow>
   (error + unit) \<times> ('p, 'w) state \<times> 'p event list" where
  "train L A s =
     (case train_init L A s of
        (Inl e, s0, ev0) \<Rightarrow> (Inl e, s0, ev0)
      | (Inr start_iter, s0, ev0) \<Rightarrow>
          (case train_loop L A [start_iter .. start_iter + train_iter A - 1] (init_locals, s0) of
             (Some e, (l, s1), ev1) \<Rightarrow> (Inl e, s1, ev0 @ ev1)
           | (None, (l, s1), ev1) \<Rightarrow>
               (case eval L 10 10 2 (test_iter A) (Some (save_path A)) s1 of
                  (Inl e, s2, ev2) \<Rightarrow>
                    (Inl e, s2, ev0 @ ev1 @ finish_lines A @ ev2)
                | (Inr test_acc, s2, ev2) \<Rightarrow>
                    (Inr (), s2, ev0 @ ev1 @ finish_lines A @ ev2 @ [TestAccuracy test_acc]))))"

section \<open>Reading the trace\<close>

text \<open>
  Projections of a trace: the evaluation iterations (loader, parameters at the forward
  pass, accuracy read), the passes through the training loop (index, parameters at the
  forward pass), the step numbers of the training progress lines with the
  averages they show, the paths written by \<^verbatim>\<open>torch.save\<close> and the test accuracies
  printed.
\<close>

definition episodes :: "'p event list \<Rightarrow> (loader \<times> 'p \<times> real) list" where
  "episodes evs = concat (map (\<lambda>e. case e of Episode d p a \<Rightarrow> [(d, p, a)] | _ \<Rightarrow> []) evs)"

definition batches :: "'p event list \<Rightarrow> (int \<times> 'p) list" where
  "batches evs = concat (map (\<lambda>e. case e of Batch it p \<Rightarrow> [(it, p)] | _ \<Rightarrow> []) evs)"

definition progress :: "'p event list \<Rightarrow> (int \<times> real \<times> real) list" where
  "progress evs = concat (map (\<lambda>e. case e of TrainProgress n x y \<Rightarrow> [(n, x, y)] | _ \<Rightarrow> []) evs)"

definition episode_accs :: "'p event list \<Rightarrow> real list" where
  "episode_accs evs = map (\<lambda>x. snd (snd x)) (episodes evs)"

text \<open>The arithmetic mean of a list of numbers.\<close>

definition mean :: "real list \<Rightarrow> real" where
  "mean xs = sum_list xs / real (length xs)"

text \<open>
  The loop index of each training iteration, read back from the step number its progress
  line shows (line 153 prints \<^verbatim>\<open>it + 1\<close>).
\<close>

definition train_indices :: "'p event list \<Rightarrow> int list" where
  "train_indices evs = map (\<lambda>x. fst x - 1) (progress evs)"

definition saves :: "'p event list \<Rightarrow> string list" where
  "saves evs = concat (map (\<lambda>e. case e of TorchSave path \<Rightarrow> [path] | _ \<Rightarrow> []) evs)"

definition test_accuracies :: "'p event list \<Rightarrow> real list" where
  "test_accuracies evs = concat (map (\<lambda>e. case e of TestAccuracy a \<Rightarrow> [a] | _ \<Rightarrow> []) evs)"

text \<open>
  \<open>written_next\<close>: a \<^verbatim>\<open>torch.save\<close> happens before the next validation result.
  \<open>validations\<close>: the validation results of a trace in order, each with the loop
  index it was obtained at, the accuracy, and whether a checkpoint was written for it.
\<close>

primrec written_next :: "'p event list \<Rightarrow> bool" where
  "written_next [] = False"
| "written_next (e # evs) =
     (case e of TorchSave path \<Rightarrow> True | Validated it a \<Rightarrow> False | _ \<Rightarrow> written_next evs)"

primrec validations :: "'p event list \<Rightarrow> (int \<times> real \<times> bool) list" where
  "validations [] = []"
| "validations (e # evs) =
     (case e of Validated it a \<Rightarrow> (it, a, written_next evs) # validations evs
      | _ \<Rightarrow> validations evs)"

definition val_accs :: "'p event list \<Rightarrow> real list" where
  "val_accs evs = map (\<lambda>v. fst (snd v)) (validations evs)"

definition val_written :: "'p event list \<Rightarrow> bool list" where
  "val_written evs = map (\<lambda>v. snd (snd v)) (validations evs)"

text \<open>A stretch of the trace with no validation result and no \<^verbatim>\<open>torch.save\<close>.\<close>

definition neutral :: "'p event list \<Rightarrow> bool" where
  "neutral evs =
     list_all (\<lambda>e. case e of Validated it a \<Rightarrow> False | TorchSave path \<Rightarrow> False | _ \<Rightarrow> True) evs"

text \<open>An outcome of the loop that is the operating system's refusal of a write.\<close>

definition write_failed :: "error option \<Rightarrow> bool" where
  "write_failed r = (case r of Some (OSError path) \<Rightarrow> True | _ \<Rightarrow> False)"

text \<open>
  The write decisions that "write exactly on a strict improvement over the best so far"
  prescribes for a sequence of accuracies, from a starting best \<open>b\<close>.
\<close>

primrec improvements :: "real \<Rightarrow> real list \<Rightarrow> bool list" where
  "improvements b [] = []"
| "improvements b (a # as) = (b < a) # improvements (max b a) as"

text \<open>The events of a run of \<open>train\<close> and of \<open>eval\<close>.\<close>

definition train_events :: "('p, 'w, 'b, 'e) lib \<Rightarrow> train_args \<Rightarrow> ('p, 'w) state \<Rightarrow> 'p event list" where
  "train_events L A s = snd (snd (train L A s))"

definition eval_events ::
  "('p, 'w, 'b, 'e) lib \<Rightarrow> int \<Rightarrow> int \<Rightarrow> int \<Rightarrow> int \<Rightarrow> string option \<Rightarrow> ('p, 'w) state \<Rightarrow> 'p event list" where
  "eval_events L support_size query_size query_class eval_iter ckpt s =
     snd (snd (eval L support_size query_size query_class eval_iter ckpt s))"

section \<open>A concrete instance\<close>

text \<open>
  A small instance of the collaborators, used to run the definitions on concrete inputs.
  The parameters are a counter of optimizer steps; the world counts the batches and the
  episodes drawn so far; a batch and an episode are their own index. The \<open>k\<close>-th
  training batch (from 0) yields loss \<open>k + 1\<close> and accuracy 1, and the episode with
  index \<open>e\<close> yields accuracy \<open>f e\<close>. The operating system refuses nothing.
\<close>

definition demo_lib :: "(nat \<Rightarrow> real) \<Rightarrow> (nat, nat \<times> nat, nat, nat) lib" where
  "demo_lib f =
     \<lparr>make_optimizer = (\<lambda>lr wd st m w. w),
      scheduler_step = (\<lambda>w. w),
      next_batch = (\<lambda>bs w. (fst w, (fst w + 1, snd w))),
      forward_base = (\<lambda>b m. m\<lparr>m_loss := real b + 1, m_accuracy := 1\<rparr>),
      backward_step = (\<lambda>m w. (m\<lparr>params := params m + 1\<rparr>, w)),
      next_new_relation = (\<lambda>ds ss qs qc w. (snd w, (fst w, snd w + 1))),
      forward_new = (\<lambda>e m. m\<lparr>m_accuracy := f e\<rparr>),
      may_makedirs = (\<lambda>path fsys. True),
      may_save = (\<lambda>path fsys. True)\<rparr>"

definition demo_args :: "int \<Rightarrow> int \<Rightarrow> train_args" where
  "demo_args n step =
     \<lparr>model_name = ''m'', batch_size = 4, ckpt_dir = ''ckpt'', learning_rate = 1,
      lr_step_size = 1, weight_decay = 0, train_iter = n, val_iter = 1, val_step = step,
      test_iter = 1, pretrain_model = None\<rparr>"

definition demo_state :: "(nat, nat \<times> nat) state" where
  "demo_state =
     \<lparr>the_model = \<lparr>params = 0, m_loss = 0, m_accuracy = 0\<rparr>, world = (0, 0),
      files = Map.empty\<rparr>"

text \<open>
  A checkpoint file that holds parameters only, a state whose file system has it, and an
  accuracy that is 1 for the first episode drawn and one half afterwards.
\<close>

definition demo_ckpt :: "nat checkpoint" where
  "demo_ckpt = [''state_dict'' \<mapsto> StateDict 7]"

definition demo_saved :: "(nat, nat \<times> nat) state" where
  "demo_saved = demo_state\<lparr>files := [''best.pth.tar'' \<mapsto> File demo_ckpt]\<rparr>"

definition demo_half :: "nat \<Rightarrow> real" where
  "demo_half e = (if e = 0 then 1 else 1 / 2)"

text \<open>
  Validation accuracies for whole runs: 0.6 for the first episode and 0.8 afterwards, and
  0 throughout.
\<close>

definition demo_rising :: "nat \<Rightarrow> real" where
  "demo_rising e = (if e = 0 then 6 / 10 else 8 / 10)"

definition demo_zero :: "nat \<Rightarrow> real" where
  "demo_zero e = 0"



section \<open>Properties\<close>

subsection \<open>Projections and the evaluation loop\<close>


lemma episodes_append: "episodes (xs @ ys) = episodes xs @ episodes ys"
  by (simp add: episodes_def)

lemma progress_append: "progress (xs @ ys) = progress xs @ progress ys"
  by (simp add: progress_def)

lemma saves_append: "saves (xs @ ys) = saves xs @ saves ys"
  by (simp add: saves_def)

lemma test_accuracies_append: "test_accuracies (xs @ ys) = test_accuracies xs @ test_accuracies ys"
  by (simp add: test_accuracies_def)

lemma eval_loop_Cons:
  "eval_loop L ds a b c (it # its) acc s =
     (let r = accuracy (forward_new L (fst (next_new_relation L ds a b c (world s))) (the_model s));
          rest = eval_loop L ds a b c its (fst acc + r, snd acc + 1)
                   (s\<lparr>the_model := forward_new L (fst (next_new_relation L ds a b c (world s))) (the_model s),
                      world := snd (next_new_relation L ds a b c (world s))\<rparr>)
      in (fst rest, fst (snd rest),
          Episode ds (params (the_model s)) r
            # EvalProgress (it + 1) (100 * (fst acc + r) / real (snd acc + 1)) # snd (snd rest)))"
  by (simp add: Let_def split_def)

lemma eval_loop_count:
  "snd (fst (eval_loop L ds a b c its acc s)) = snd acc + length its"
  by (induction its arbitrary: acc s) (simp_all add: eval_loop_Cons Let_def del: eval_loop.simps(2))

lemma eval_loop_sum:
  "fst (fst (eval_loop L ds a b c its acc s)) =
     fst acc + sum_list (map (\<lambda>x. snd (snd x)) (episodes (snd (snd (eval_loop L ds a b c its acc s)))))"
  by (induction its arbitrary: acc s)
     (simp_all add: eval_loop_Cons Let_def episodes_def del: eval_loop.simps(2))

lemma eval_loop_loaders:
  "map fst (episodes (snd (snd (eval_loop L ds a b c its acc s)))) = replicate (length its) ds"
  by (induction its arbitrary: acc s)
     (simp_all add: eval_loop_Cons Let_def episodes_def del: eval_loop.simps(2))

lemma eval_loop_first_params:
  "its \<noteq> [] \<Longrightarrow>
   fst (snd (hd (episodes (snd (snd (eval_loop L ds a b c its acc s)))))) = params (the_model s)"
  by (cases its) (simp_all add: eval_loop_Cons Let_def episodes_def del: eval_loop.simps(2))

lemma eval_loop_files:
  "files (fst (snd (eval_loop L ds a b c its acc s))) = files s"
  by (induction its arbitrary: acc s) (simp_all add: eval_loop_Cons Let_def del: eval_loop.simps(2))

lemma eval_loop_progress:
  "progress (snd (snd (eval_loop L ds a b c its acc s))) = []"
  by (induction its arbitrary: acc s)
     (simp_all add: eval_loop_Cons Let_def progress_def del: eval_loop.simps(2))

lemma eval_loop_validations:
  "validations (snd (snd (eval_loop L ds a b c its acc s)) @ evs) = validations evs"
  by (induction its arbitrary: acc s)
     (simp_all add: eval_loop_Cons Let_def del: eval_loop.simps(2))

lemma eval_loop_written_next:
  "written_next (snd (snd (eval_loop L ds a b c its acc s)) @ evs) = written_next evs"
  by (induction its arbitrary: acc s)
     (simp_all add: eval_loop_Cons Let_def del: eval_loop.simps(2))

lemma eval_loop_saves:
  "saves (snd (snd (eval_loop L ds a b c its acc s))) = []"
  by (induction its arbitrary: acc s)
     (simp_all add: eval_loop_Cons Let_def saves_def del: eval_loop.simps(2))


lemmas run_defs =
  train_def train_init_def train_body_def validate_def save_best_def eval_def eval_dataset_def
  load_model_def getitem_def load_state_dict_def save_path_def path_join_def accuracy_def
  loss_def state_dict_def finish_lines_def init_locals_def path_exists_def makedirs_def
  torch_save_def isfile_def train_events_def eval_events_def under_file_def

lemmas demo_defs = demo_lib_def demo_args_def demo_state_def

lemma eval_run:
  assumes "eval_dataset ckpt s = (Inr ds, s1, evs1)"
  shows "eval L a b c n ckpt s =
           (if n \<le> 0 then Inl ZeroDivisionError
            else Inr (fst (fst (eval_loop L ds a b c [0 .. n - 1] (0, 0) s1)) / real (nat n)),
            fst (snd (eval_loop L ds a b c [0 .. n - 1] (0, 0) s1)),
            Print [] # evs1 @ snd (snd (eval_loop L ds a b c [0 .. n - 1] (0, 0) s1)) @ [Print []])"
proof -
  obtain r k s2 evs2 where X: "eval_loop L ds a b c [0 .. n - 1] (0, 0) s1 = ((r, k), s2, evs2)"
    by (metis prod.exhaust)
  have "k = nat n"
    using eval_loop_count [of L ds a b c "[0 .. n - 1]" "(0, 0)" s1] X by simp
  then show ?thesis
    using assms X by (auto simp: eval_def)
qed

lemma eval_dataset_None: "eval_dataset None s = (Inr ValLoader, s, [])"
  by (simp add: eval_dataset_def)

lemma eval_dataset_missing:
  "\<not> isfile (files s) path \<Longrightarrow> eval_dataset (Some path) s = (Inl (NoCheckpointFound path), s, [])"
  by (auto simp: eval_dataset_def load_model_def isfile_def split: option.splits node.splits)

lemma eval_dataset_file:
  "files s path = Some (File ck) \<Longrightarrow> ck ''state_dict'' = Some (StateDict p) \<Longrightarrow>
   eval_dataset (Some path) s =
     (Inr TestLoader, s\<lparr>the_model := (the_model s)\<lparr>params := p\<rparr>\<rparr>,
      [Print (''Successfully loaded checkpoint '' @ path)])"
  by (simp add: eval_dataset_def load_model_def getitem_def load_state_dict_def)

lemma eval_dataset_Inr_cases:
  "eval_dataset ckpt s = (Inr ds, s1, evs1) \<Longrightarrow>
   files s1 = files s \<and> episodes evs1 = [] \<and> progress evs1 = [] \<and> saves evs1 = [] \<and>
   (\<forall>evs. validations (evs1 @ evs) = validations evs) \<and>
   (\<forall>evs. written_next (evs1 @ evs) = written_next evs)"
  by (auto simp: eval_dataset_def load_model_def getitem_def load_state_dict_def episodes_def
      progress_def saves_def split: option.splits node.splits sum.splits pyval.splits)

subsection \<open>Evaluation needs at least one iteration\<close>

text \<open>
  Claim C10. \<^verbatim>\<open>Framework.eval\<close> returns an accuracy only when \<^verbatim>\<open>eval_iter\<close> is at
  least one. Called with \<^verbatim>\<open>eval_iter = 0\<close> (and no checkpoint), the loop body never
  runs, no episode is evaluated, the sample counter stays 0 and the final division
  raises \<^verbatim>\<open>ZeroDivisionError\<close>. With at least one iteration and no checkpoint it does
  return an accuracy.
\<close>
theorem eval_without_iterations:
  "fst (eval L a b c 0 None s) = Inl ZeroDivisionError \<and>
   episodes (eval_events L a b c 0 None s) = [] \<and>
   (\<forall>acc. fst (eval L a b c n ckpt s) = Inr acc \<longrightarrow> 1 \<le> n) \<and>
   (1 \<le> n \<longrightarrow> (\<exists>acc. fst (eval L a b c n None s) = Inr acc))"
proof -
  have zero: "eval L a b c 0 None s = (Inl ZeroDivisionError, s, [Print [], Print []])"
    by (simp add: eval_run [OF eval_dataset_None])
  have only: "1 \<le> n" if "fst (eval L a b c n ckpt s) = Inr acc" for acc
  proof (cases "eval_dataset ckpt s")
    case (fields r s1 evs1)
    show ?thesis
    proof (cases r)
      case (Inl e)
      with fields that show ?thesis by (simp add: eval_def)
    next
      case (Inr ds)
      with fields that eval_run [of ckpt s ds s1 evs1 L a b c n] show ?thesis
        by (simp split: if_splits)
    qed
  qed
  have some: "\<exists>acc. fst (eval L a b c n None s) = Inr acc" if "1 \<le> n"
    using that by (simp add: eval_run [OF eval_dataset_None])
  show ?thesis
    using zero only some by (simp add: eval_events_def episodes_def)
qed

theorem eval_without_iterations_witness:
  "fst (eval (demo_lib (\<lambda>e. 0)) 10 10 2 0 None demo_state) = Inl ZeroDivisionError \<and>
   episodes (eval_events (demo_lib (\<lambda>e. 0)) 10 10 2 0 None demo_state) = [] \<and>
   fst (eval (demo_lib (\<lambda>e. 0)) 10 10 2 1 None demo_state) = Inr 0 \<and> (1::int) \<le> 1"
  using eval_without_iterations [of "demo_lib (\<lambda>e. 0)" 10 10 2 demo_state 1 None]
  by (simp add: run_defs demo_defs upto.simps)

subsection \<open>A missing checkpoint\<close>

lemma train_init_missing:
  "pretrain_model A = Some path \<Longrightarrow> path \<noteq> [] \<Longrightarrow> \<not> isfile (files s) path \<Longrightarrow>
   train_init L A s =
     (Inl (NoCheckpointFound path),
      s\<lparr>world := make_optimizer L (learning_rate A) (weight_decay A) (lr_step_size A)
                     (the_model s) (world s)\<rparr>,
      [Print ''Start training...''])"
  by (auto simp: train_init_def load_model_def isfile_def Let_def split: option.splits node.splits)

text \<open>
  Claim C6. For every path that does not name an existing file, \<^verbatim>\<open>Framework.eval\<close>
  called with that path as \<^verbatim>\<open>ckpt\<close> raises the "no checkpoint found" exception for
  that path, leaves the state as it was, evaluates no episode and returns no accuracy.
  The same failure aborts \<^verbatim>\<open>Framework.train\<close> when the path is given as
  \<^verbatim>\<open>pretrain_model\<close> (a non-empty path, which Python takes as true): the exception
  is raised after the first line is printed and before any training iteration.
\<close>
theorem missing_checkpoint_aborts:
  assumes "\<not> isfile (files s) path"
  shows "eval L a b c n (Some path) s = (Inl (NoCheckpointFound path), s, [Print []]) \<and>
         episodes (eval_events L a b c n (Some path) s) = [] \<and>
         (pretrain_model A = Some path \<and> path \<noteq> [] \<longrightarrow>
            fst (train L A s) = Inl (NoCheckpointFound path) \<and>
            train_events L A s = [Print ''Start training...''] \<and>
            progress (train_events L A s) = [])"
proof -
  have e: "eval L a b c n (Some path) s = (Inl (NoCheckpointFound path), s, [Print []])"
    using assms by (simp add: eval_def eval_dataset_missing)
  have t: "fst (train L A s) = Inl (NoCheckpointFound path) \<and>
           train_events L A s = [Print ''Start training...'']"
    if "pretrain_model A = Some path" "path \<noteq> []"
    using that assms by (simp add: train_def train_events_def train_init_missing)
  show ?thesis
    using e t by (auto simp: eval_events_def episodes_def progress_def)
qed

theorem missing_checkpoint_aborts_witness:
  "\<not> isfile (files demo_state) ''absent.pth.tar'' \<and>
   eval (demo_lib (\<lambda>e. 1)) 10 10 2 3 (Some ''absent.pth.tar'') demo_state =
     (Inl (NoCheckpointFound ''absent.pth.tar''), demo_state, [Print []]) \<and>
   fst (train (demo_lib (\<lambda>e. 1)) ((demo_args 10 5)\<lparr>pretrain_model := Some ''absent.pth.tar''\<rparr>) demo_state)
     = Inl (NoCheckpointFound ''absent.pth.tar'')"
proof -
  have h: "\<not> isfile (files demo_state) ''absent.pth.tar''"
    by (simp add: isfile_def demo_state_def)
  show ?thesis
    using h missing_checkpoint_aborts [OF h, of "demo_lib (\<lambda>e. 1)" 10 10 2 3
        "(demo_args 10 5)\<lparr>pretrain_model := Some ''absent.pth.tar''\<rparr>"]
    by (simp add: demo_args_def)
qed

subsection \<open>The default accuracy\<close>

lemma sum_list_to_float: "sum_list (to_float bs) = real (length (filter id bs))"
  by (induction bs) (simp_all add: to_float_def)

lemma matches_card:
  "length xs = length ys \<Longrightarrow>
   length (filter (\<lambda>(p, l). p = l) (zip xs ys)) = card {i. i < length xs \<and> xs ! i = ys ! i}"
proof (induction xs ys rule: list_induct2)
  case Nil
  then show ?case by simp
next
  case (Cons x xs y ys)
  let ?S = "{i. i < length xs \<and> xs ! i = ys ! i}"
  let ?T = "{i. i < length (x # xs) \<and> (x # xs) ! i = (y # ys) ! i}"
  have fin: "finite ?S" by simp
  have T: "?T = (if x = y then {0} else {}) \<union> Suc ` ?S"
  proof (rule set_eqI)
    fix i show "i \<in> ?T \<longleftrightarrow> i \<in> (if x = y then {0} else {}) \<union> Suc ` ?S"
      by (cases i) auto
  qed
  have "card (Suc ` ?S) = card ?S"
    by (simp add: card_image)
  moreover have "card ((if x = y then {0} else {}) \<union> Suc ` ?S)
      = (if x = y then 1 else 0) + card (Suc ` ?S)"
    using fin by (auto simp: card_insert_if)
  ultimately show ?case
    using Cons.IH T by simp
qed

text \<open>
  Claim C8, amended. For every pair of prediction and label sequences of the same
  length that is not zero, \<^verbatim>\<open>Model.__accuracy__\<close> returns the number of positions where
  prediction and label are equal divided by the length, a value between 0 and 1.
  (For two empty sequences the result is \<^verbatim>\<open>nan\<close>, see the counterexample below.)
\<close>

theorem default_accuracy_fraction:
  assumes "length pred = length label" and "pred \<noteq> []"
  shows "Model_accuracy pred label =
           Inr (Num (real (card {i. i < length pred \<and> pred ! i = label ! i}) / real (length pred))) \<and>
         0 \<le> real (card {i. i < length pred \<and> pred ! i = label ! i}) / real (length pred) \<and>
         real (card {i. i < length pred \<and> pred ! i = label ! i}) / real (length pred) \<le> 1"
proof -
  let ?S = "{i. i < length pred \<and> pred ! i = label ! i}"
  have ne: "to_float (map (\<lambda>(p, l). p = l) (zip pred label)) \<noteq> []"
    using assms by (cases pred; cases label) (simp_all add: to_float_def)
  have len: "length (to_float (map (\<lambda>(p, l). p = l) (zip pred label))) = length pred"
    using assms by (simp add: to_float_def)
  have "length (filter id (map (\<lambda>(p, l). p = l) (zip pred label))) = card ?S"
    using matches_card [OF assms(1)] by (simp add: filter_map comp_def split_def)
  then have total: "sum_list (to_float (map (\<lambda>(p, l). p = l) (zip pred label))) = real (card ?S)"
    by (simp only: sum_list_to_float)
  have val: "Model_accuracy pred label = Inr (Num (real (card ?S) / real (length pred)))"
    unfolding Model_accuracy_def eq_flat_def torch_mean_def
    using assms(1) ne len total by (simp del: map_eq_conv)
  have "?S \<subseteq> {..<length pred}" by auto
  then have "card ?S \<le> length pred"
    by (metis card_lessThan card_mono finite_lessThan)
  moreover have "0 < length pred" using assms(2) by simp
  ultimately have "real (card ?S) / real (length pred) \<le> 1" by simp
  with val show ?thesis by (simp only: simp_thms divide_nonneg_nonneg of_nat_0_le_iff)
qed

theorem default_accuracy_fraction_witness:
  "length [1, 2, 3 :: int] = length [1, 0, 3 :: int] \<and> [1, 2, 3 :: int] \<noteq> [] \<and>
   Model_accuracy [1, 2, 3 :: int] [1, 0, 3] = Inr (Num (2 / 3))"
proof -
  have c: "card {i. i < length [1, 2, 3 :: int] \<and> [1, 2, 3 :: int] ! i = [1, 0, 3] ! i} = 2"
  proof -
    have "{i. i < length [1, 2, 3 :: int] \<and> [1, 2, 3 :: int] ! i = [1, 0, 3] ! i} = {0, 2}"
      by (auto simp: nth_Cons' less_Suc_eq numeral_3_eq_3 split: if_splits)
    then show ?thesis by simp
  qed
  show ?thesis
    using default_accuracy_fraction [of "[1, 2, 3 :: int]" "[1, 0, 3]"] c by simp
qed

text \<open>
  The claim as stated, for every pair of sequences of equal length, fails for the two
  empty sequences: the mean of no elements is \<^verbatim>\<open>nan\<close>, not a value in [0,1].
\<close>

theorem default_accuracy_empty_counterexample:
  "Model_accuracy ([] :: int list) [] = Inr NaN"
  by (simp add: Model_accuracy_def eq_flat_def torch_mean_def to_float_def)

subsection \<open>Loader selection and the returned mean\<close>

lemma mean_bounds:
  assumes "xs \<noteq> []" and "\<forall>x\<in>set xs. 0 \<le> x \<and> x \<le> 1"
  shows "0 \<le> mean xs \<and> mean xs \<le> 1"
proof -
  have lo: "0 \<le> sum_list xs"
    using assms(2) by (simp add: sum_list_nonneg)
  have hi: "sum_list xs \<le> real (length xs)"
    using assms(2) by (induction xs) auto
  have "0 < real (length xs)"
    using assms(1) by simp
  then show ?thesis
    using lo hi by (simp add: mean_def)
qed

lemma eval_mean:
  assumes "eval_dataset ckpt s = (Inr ds, s1, evs1)" and "1 \<le> n"
  shows "fst (eval L a b c n ckpt s) = Inr (mean (episode_accs (eval_events L a b c n ckpt s))) \<and>
         map fst (episodes (eval_events L a b c n ckpt s)) = replicate (nat n) ds \<and>
         fst (snd (hd (episodes (eval_events L a b c n ckpt s)))) = params (the_model s1) \<and>
         length (episode_accs (eval_events L a b c n ckpt s)) = nat n"
proof -
  let ?X = "eval_loop L ds a b c [0 .. n - 1] (0, 0) s1"
  have ne: "[0 .. n - 1] \<noteq> []"
    using assms(2) by (simp add: upto.simps)
  have pre: "episodes evs1 = []"
    using eval_dataset_Inr_cases [OF assms(1)] by simp
  have evs: "episodes (eval_events L a b c n ckpt s) = episodes (snd (snd ?X))"
    using pre by (simp add: eval_events_def eval_run [OF assms(1)] episodes_append)
       (simp add: episodes_def)
  have loaders: "map fst (episodes (snd (snd ?X))) = replicate (nat n) ds"
    using eval_loop_loaders [of L ds a b c "[0 .. n - 1]" "(0, 0)" s1] by simp
  then have len: "length (episodes (snd (snd ?X))) = nat n"
    by (metis length_map length_replicate)
  have total: "fst (fst ?X) = sum_list (episode_accs (eval_events L a b c n ckpt s))"
    using eval_loop_sum [of L ds a b c "[0 .. n - 1]" "(0, 0)" s1] evs
    by (simp add: episode_accs_def)
  have res: "fst (eval L a b c n ckpt s) = Inr (fst (fst ?X) / real (nat n))"
    using assms(2) by (simp add: eval_run [OF assms(1)])
  show ?thesis
    using res total evs loaders len eval_loop_first_params [OF ne, of L ds a b c "(0, 0)" s1]
    by (simp add: mean_def episode_accs_def)
qed

text \<open>
  Claim C7. With at least one evaluation iteration: \<^verbatim>\<open>Framework.eval\<close> without a
  checkpoint draws every one of its \<^verbatim>\<open>eval_iter\<close> episodes from the validation loader,
  starting from the parameters the model holds in memory; with a checkpoint path (a file
  holding a \<^verbatim>\<open>'state_dict'\<close>) it starts from that checkpoint's parameters and draws every
  episode from the test loader. In both cases it returns the arithmetic mean of the
  accuracies read in its iterations, which lies in [0,1] when each of them does.
\<close>
theorem eval_loader_selection_and_mean:
  assumes "1 \<le> n"
  shows "(map fst (episodes (eval_events L a b c n None s)) = replicate (nat n) ValLoader \<and>
          fst (snd (hd (episodes (eval_events L a b c n None s)))) = params (the_model s) \<and>
          fst (eval L a b c n None s) = Inr (mean (episode_accs (eval_events L a b c n None s))) \<and>
          length (episode_accs (eval_events L a b c n None s)) = nat n \<and>
          ((\<forall>x\<in>set (episode_accs (eval_events L a b c n None s)). 0 \<le> x \<and> x \<le> 1) \<longrightarrow>
             0 \<le> mean (episode_accs (eval_events L a b c n None s)) \<and>
             mean (episode_accs (eval_events L a b c n None s)) \<le> 1)) \<and>
         (files s path = Some (File ck) \<and> ck ''state_dict'' = Some (StateDict p) \<longrightarrow>
          map fst (episodes (eval_events L a b c n (Some path) s)) = replicate (nat n) TestLoader \<and>
          fst (snd (hd (episodes (eval_events L a b c n (Some path) s)))) = p \<and>
          fst (eval L a b c n (Some path) s) =
            Inr (mean (episode_accs (eval_events L a b c n (Some path) s))) \<and>
          length (episode_accs (eval_events L a b c n (Some path) s)) = nat n \<and>
          ((\<forall>x\<in>set (episode_accs (eval_events L a b c n (Some path) s)). 0 \<le> x \<and> x \<le> 1) \<longrightarrow>
             0 \<le> mean (episode_accs (eval_events L a b c n (Some path) s)) \<and>
             mean (episode_accs (eval_events L a b c n (Some path) s)) \<le> 1))"
proof -
  have bounded: "0 \<le> mean xs \<and> mean xs \<le> 1"
    if "length xs = nat n" "\<forall>x\<in>set xs. 0 \<le> x \<and> x \<le> 1" for xs
  proof -
    have "xs \<noteq> []" using that(1) assms by auto
    then show ?thesis using that(2) by (rule mean_bounds)
  qed
  have val: ?thesis if "False" using that by simp
  note v = eval_mean [OF eval_dataset_None assms, of L a b c s]
  have part1: "map fst (episodes (eval_events L a b c n None s)) = replicate (nat n) ValLoader \<and>
          fst (snd (hd (episodes (eval_events L a b c n None s)))) = params (the_model s) \<and>
          fst (eval L a b c n None s) = Inr (mean (episode_accs (eval_events L a b c n None s))) \<and>
          length (episode_accs (eval_events L a b c n None s)) = nat n \<and>
          ((\<forall>x\<in>set (episode_accs (eval_events L a b c n None s)). 0 \<le> x \<and> x \<le> 1) \<longrightarrow>
             0 \<le> mean (episode_accs (eval_events L a b c n None s)) \<and>
             mean (episode_accs (eval_events L a b c n None s)) \<le> 1)"
    using v bounded [of "episode_accs (eval_events L a b c n None s)"] by blast
  have part2: "map fst (episodes (eval_events L a b c n (Some path) s)) = replicate (nat n) TestLoader \<and>
          fst (snd (hd (episodes (eval_events L a b c n (Some path) s)))) = p \<and>
          fst (eval L a b c n (Some path) s) =
            Inr (mean (episode_accs (eval_events L a b c n (Some path) s))) \<and>
          length (episode_accs (eval_events L a b c n (Some path) s)) = nat n \<and>
          ((\<forall>x\<in>set (episode_accs (eval_events L a b c n (Some path) s)). 0 \<le> x \<and> x \<le> 1) \<longrightarrow>
             0 \<le> mean (episode_accs (eval_events L a b c n (Some path) s)) \<and>
             mean (episode_accs (eval_events L a b c n (Some path) s)) \<le> 1)"
    if f: "files s path = Some (File ck)" "ck ''state_dict'' = Some (StateDict p)"
  proof -
    note t = eval_mean [OF eval_dataset_file [OF f] assms, of L a b c]
    show ?thesis
      using t bounded [of "episode_accs (eval_events L a b c n (Some path) s)"] by simp
  qed
  show ?thesis
    using part1 part2 by blast
qed

lemma demo_eval_val:
  "eval (demo_lib demo_half) 10 10 2 2 None demo_saved =
     (Inr (3 / 4),
      \<lparr>the_model = \<lparr>params = 0, m_loss = 0, m_accuracy = 1 / 2\<rparr>, world = (0, 2),
       files = [''best.pth.tar'' \<mapsto> File demo_ckpt]\<rparr>,
      [Print [], Episode ValLoader 0 1, EvalProgress 1 100, Episode ValLoader 0 (1 / 2),
       EvalProgress 2 75, Print []])"
  by (simp add: run_defs demo_defs demo_saved_def demo_half_def upto.simps Let_def)

lemma demo_eval_test:
  "eval (demo_lib demo_half) 10 10 2 2 (Some ''best.pth.tar'') demo_saved =
     (Inr (3 / 4),
      \<lparr>the_model = \<lparr>params = 7, m_loss = 0, m_accuracy = 1 / 2\<rparr>, world = (0, 2),
       files = [''best.pth.tar'' \<mapsto> File demo_ckpt]\<rparr>,
      [Print [], Print ''Successfully loaded checkpoint best.pth.tar'',
       Episode TestLoader 7 1, EvalProgress 1 100, Episode TestLoader 7 (1 / 2),
       EvalProgress 2 75, Print []])"
  by (simp add: run_defs demo_defs demo_saved_def demo_half_def demo_ckpt_def upto.simps Let_def)

theorem eval_loader_selection_and_mean_witness:
  "(1::int) \<le> 2 \<and>
   fst (eval (demo_lib demo_half) 10 10 2 2 None demo_saved) = Inr (3 / 4) \<and>
   episodes (eval_events (demo_lib demo_half) 10 10 2 2 None demo_saved) =
     [(ValLoader, 0, 1), (ValLoader, 0, 1 / 2)] \<and>
   mean (episode_accs (eval_events (demo_lib demo_half) 10 10 2 2 None demo_saved)) = 3 / 4 \<and>
   files demo_saved ''best.pth.tar'' = Some (File demo_ckpt) \<and>
   demo_ckpt ''state_dict'' = Some (StateDict 7) \<and>
   fst (eval (demo_lib demo_half) 10 10 2 2 (Some ''best.pth.tar'') demo_saved) = Inr (3 / 4) \<and>
   episodes (eval_events (demo_lib demo_half) 10 10 2 2 (Some ''best.pth.tar'') demo_saved) =
     [(TestLoader, 7, 1), (TestLoader, 7, 1 / 2)]"
  using eval_loader_selection_and_mean [of 2 "demo_lib demo_half" 10 10 2 demo_saved
      "''best.pth.tar''" demo_ckpt 7]
  by (simp add: eval_events_def demo_eval_val demo_eval_test episodes_def episode_accs_def mean_def)
     (simp add: demo_saved_def demo_ckpt_def)

subsection \<open>What a written checkpoint holds\<close>

lemma save_path_nonempty: "save_path A \<noteq> []"
  by (simp add: save_path_def path_join_def)

lemma save_path_pretrain: "save_path (A\<lparr>pretrain_model := x\<rparr>) = save_path A"
  by (simp add: save_path_def)

lemma save_best_shape:
  assumes "save_best L A acc (l, s) = (r, (l', s'), evs)"
  shows "(r = None \<and> evs = [Print ''Best checkpoint'', TorchSave (save_path A)] \<and>
          l' = l\<lparr>best_acc := acc\<rparr> \<and>
          files s' (save_path A) = Some (File [''state_dict'' \<mapsto> StateDict (state_dict (the_model s))]) \<and>
          the_model s' = the_model s \<and> world s' = world s) \<or>
         (write_failed r \<and> evs = [Print ''Best checkpoint''] \<and> l' = l)"
  using assms
  by (auto simp: save_best_def makedirs_def torch_save_def write_failed_def
      split: if_splits sum.splits)

text \<open>
  Claim C1. Writing a checkpoint as \<^verbatim>\<open>Framework.train\<close> does (lines 164-170) and, when
  the write went through, loading it with \<^verbatim>\<open>__load_model__\<close> gives back a dictionary
  with the parameter state that was saved, but with no \<^verbatim>\<open>'iter'\<close>: the iteration index
  is not part of what is written. Resuming a training from the file (lines 123-126)
  restores the parameters and then fails on \<^verbatim>\<open>checkpoint['iter']\<close>.
\<close>

theorem saved_checkpoint_lacks_iter:
  assumes "fst (save_best L A acc (l, s)) = None"
  shows "(\<exists>ck. fst (load_model (files (snd (fst (snd (save_best L A acc (l, s)))))) (save_path A)) = Inr ck \<and>
              ck ''state_dict'' = Some (StateDict (state_dict (the_model s))) \<and>
              ck ''iter'' = None) \<and>
         fst (train_init L' (A\<lparr>pretrain_model := Some (save_path A)\<rparr>)
                (snd (fst (snd (save_best L A acc (l, s))))))
           = Inl (KeyError ''iter'')"
proof -
  obtain r l' s' evs where sb: "save_best L A acc (l, s) = (r, (l', s'), evs)"
    by (metis prod.exhaust)
  have r: "r = None" using assms sb by simp
  have f: "files s' (save_path A) = Some (File [''state_dict'' \<mapsto> StateDict (state_dict (the_model s))])"
    using save_best_shape [OF sb] r by (auto simp: write_failed_def)
  show ?thesis
    using f save_path_nonempty [of A]
    by (simp add: sb load_model_def train_init_def getitem_def load_state_dict_def Let_def
        save_path_pretrain)
qed

theorem saved_checkpoint_lacks_iter_witness:
  "fst (save_best (demo_lib demo_zero) (demo_args 10 5) (6 / 10) (init_locals, demo_state)) = None \<and>
   fst (load_model (files (snd (fst (snd (save_best (demo_lib demo_zero) (demo_args 10 5) (6 / 10)
          (init_locals, demo_state)))))) ''ckpt/m.pth.tar'')
     = Inr [''state_dict'' \<mapsto> StateDict 0] \<and>
   fst (train_init (demo_lib demo_zero) ((demo_args 10 5)\<lparr>pretrain_model := Some ''ckpt/m.pth.tar''\<rparr>)
          (snd (fst (snd (save_best (demo_lib demo_zero) (demo_args 10 5) (6 / 10)
             (init_locals, demo_state))))))
     = Inl (KeyError ''iter'')"
proof -
  have h: "fst (save_best (demo_lib demo_zero) (demo_args 10 5) (6 / 10) (init_locals, demo_state)) = None"
    by (simp add: run_defs demo_defs)
  have p: "save_path (demo_args 10 5) = ''ckpt/m.pth.tar''"
    by (simp add: save_path_def path_join_def demo_args_def)
  have ld: "fst (load_model (files (snd (fst (snd (save_best (demo_lib demo_zero) (demo_args 10 5) (6 / 10)
          (init_locals, demo_state)))))) ''ckpt/m.pth.tar'')
     = Inr [''state_dict'' \<mapsto> StateDict 0]"
    by (simp add: run_defs demo_defs)
  note t = saved_checkpoint_lacks_iter [OF h, of "demo_lib demo_zero"]
  show ?thesis
    using h ld conjunct2 [OF t] by (simp only: p simp_thms)
qed

subsection \<open>The training loop\<close>

lemma batches_append: "batches (xs @ ys) = batches xs @ batches ys"
  by (simp add: batches_def)

lemma neutral_append [simp]: "neutral (xs @ ys) \<longleftrightarrow> neutral xs \<and> neutral ys"
  by (simp add: neutral_def)

lemma neutral_validations: "neutral q \<Longrightarrow> validations (q @ X) = validations X"
  by (induction q) (auto simp: neutral_def split: event.splits)

lemma neutral_written_next: "neutral q \<Longrightarrow> written_next (q @ X) = written_next X"
  by (induction q) (auto simp: neutral_def split: event.splits)

lemma neutral_saves: "neutral q \<Longrightarrow> saves q = []"
  by (induction q) (auto simp: neutral_def saves_def split: event.splits)

lemma neutral_validations_Nil: "neutral q \<Longrightarrow> validations q = []"
  using neutral_validations [of q "[]"] by simp

lemma neutral_not_written: "neutral q \<Longrightarrow> \<not> written_next q"
  using neutral_written_next [of q "[]"] by simp

lemma eval_loop_neutral: "neutral (snd (snd (eval_loop L ds a b c its acc s)))"
  by (induction its arbitrary: acc s)
     (simp_all add: eval_loop_Cons Let_def neutral_def del: eval_loop.simps(2))

lemma eval_loop_test_accuracies: "test_accuracies (snd (snd (eval_loop L ds a b c its acc s))) = []"
  by (induction its arbitrary: acc s)
     (simp_all add: eval_loop_Cons Let_def test_accuracies_def del: eval_loop.simps(2))

lemma eval_loop_batches: "batches (snd (snd (eval_loop L ds a b c its acc s))) = []"
  by (induction its arbitrary: acc s)
     (simp_all add: eval_loop_Cons Let_def batches_def del: eval_loop.simps(2))

lemma eval_dataset_quiet:
  "eval_dataset ckpt s = (r, s1, evs1) \<Longrightarrow>
   files s1 = files s \<and> neutral evs1 \<and> progress evs1 = [] \<and> test_accuracies evs1 = [] \<and>
   episodes evs1 = [] \<and> batches evs1 = [] \<and> (\<forall>e. r = Inl e \<longrightarrow> (\<forall>p. e \<noteq> OSError p))"
  by (auto simp: eval_dataset_def load_model_def getitem_def load_state_dict_def neutral_def
      progress_def test_accuracies_def episodes_def batches_def
      split: option.splits node.splits sum.splits pyval.splits)

lemma eval_quiet:
  assumes "eval L a b c n ckpt s = (r, s2, evs)"
  shows "files s2 = files s \<and> neutral evs \<and> progress evs = [] \<and> test_accuracies evs = [] \<and>
         batches evs = [] \<and> (\<forall>e. r = Inl e \<longrightarrow> (\<forall>p. e \<noteq> OSError p))"
proof (cases "eval_dataset ckpt s")
  case (fields r1 s1 evs1)
  note q = eval_dataset_quiet [OF fields]
  show ?thesis
  proof (cases r1)
    case (Inl e)
    with fields assms q show ?thesis
      by (auto simp: eval_def neutral_def progress_def test_accuracies_def batches_def)
  next
    case (Inr ds)
    with fields have d: "eval_dataset ckpt s = (Inr ds, s1, evs1)" by simp
    show ?thesis
      using assms q eval_loop_neutral [of L ds a b c "[0 .. n - 1]" "(0, 0)" s1]
        eval_loop_files [of L ds a b c "[0 .. n - 1]" "(0, 0)" s1]
        eval_loop_progress [of L ds a b c "[0 .. n - 1]" "(0, 0)" s1]
        eval_loop_test_accuracies [of L ds a b c "[0 .. n - 1]" "(0, 0)" s1]
        eval_loop_batches [of L ds a b c "[0 .. n - 1]" "(0, 0)" s1]
      by (auto simp: eval_run [OF d] progress_append test_accuracies_append batches_append
          split: if_splits)
         (simp_all add: neutral_def progress_def test_accuracies_def batches_def)
  qed
qed

lemma eval_None_returns:
  "1 \<le> n \<Longrightarrow> \<exists>acc. fst (eval L a b c n None s) = Inr acc"
  by (simp add: eval_run [OF eval_dataset_None])

lemma eval_None_raises:
  "fst (eval L a b c n None s) = Inl e \<Longrightarrow> e = ZeroDivisionError"
  by (simp add: eval_run [OF eval_dataset_None] split: if_splits)

text \<open>One validation: what it leaves behind.\<close>

lemma validate_shape:
  assumes "validate L A it (l, s) = (r, (l', s'), evs)"
  shows "progress evs = [] \<and> batches evs = [] \<and>
         ((r = Some ZeroDivisionError \<and> neutral evs \<and> l' = l \<and> files s' = files s) \<or>
          (r = None \<and>
           (\<exists>q acc. neutral q \<and> \<not> best_acc l < acc \<and> evs = q @ [Validated it acc] \<and>
                    l' = l \<and> files s' = files s)) \<or>
          (r = None \<and>
           (\<exists>q acc. neutral q \<and> best_acc l < acc \<and>
                    evs = q @ [Validated it acc, Print ''Best checkpoint'', TorchSave (save_path A)] \<and>
                    l' = l\<lparr>best_acc := acc\<rparr>)) \<or>
          (write_failed r \<and>
           (\<exists>q acc. neutral q \<and> best_acc l < acc \<and>
                    evs = q @ [Validated it acc, Print ''Best checkpoint''] \<and> l' = l)))"
proof (cases "eval L 10 10 2 (val_iter A) None s")
  case (fields r1 s1 evs1)
  note q = eval_quiet [OF fields]
  have pq: "progress evs1 = []" "batches evs1 = []" "neutral evs1" "files s1 = files s"
    using q by simp_all
  show ?thesis
  proof (cases r1)
    case (Inl e)
    have "e = ZeroDivisionError"
      using eval_None_raises [of L 10 10 2 "val_iter A" s e] fields Inl by simp
    with Inl fields assms pq show ?thesis
      by (auto simp: validate_def)
  next
    case (Inr acc)
    show ?thesis
    proof (cases "best_acc l < acc")
      case False
      have "r = None" "l' = l" "s' = s1" "evs = evs1 @ [Validated it acc]"
        using Inr fields assms False by (simp_all add: validate_def)
      then have "r = None \<and>
           (\<exists>q acc. neutral q \<and> \<not> best_acc l < acc \<and> evs = q @ [Validated it acc] \<and>
                    l' = l \<and> files s' = files s)"
        using pq False by blast
      moreover have "progress evs = [] \<and> batches evs = []"
        using pq \<open>evs = evs1 @ [Validated it acc]\<close>
        by (simp add: progress_append batches_append) (simp add: progress_def batches_def)
      ultimately show ?thesis by blast
    next
      case True
      obtain r2 l2 s2 evs2 where sb: "save_best L A acc (l, s1) = (r2, (l2, s2), evs2)"
        by (metis prod.exhaust)
      have res: "r = r2" "l' = l2" "s' = s2" "evs = evs1 @ Validated it acc # evs2"
        using Inr fields assms True sb by (simp_all add: validate_def)
      from save_best_shape [OF sb] show ?thesis
      proof (elim disjE conjE)
        assume h: "r2 = None" "evs2 = [Print ''Best checkpoint'', TorchSave (save_path A)]"
          "l2 = l\<lparr>best_acc := acc\<rparr>"
        have e: "evs = evs1 @ [Validated it acc, Print ''Best checkpoint'', TorchSave (save_path A)]"
          using res h by simp
        have d: "r = None \<and>
           (\<exists>q acc. neutral q \<and> best_acc l < acc \<and>
                    evs = q @ [Validated it acc, Print ''Best checkpoint'', TorchSave (save_path A)] \<and>
                    l' = l\<lparr>best_acc := acc\<rparr>)"
          using pq(3) True e res h by blast
        have "progress evs = [] \<and> batches evs = []"
          using pq e by (simp add: progress_append batches_append) (simp add: progress_def batches_def)
        then show ?thesis using d by blast
      next
        assume h: "write_failed r2" "evs2 = [Print ''Best checkpoint'']" "l2 = l"
        have e: "evs = evs1 @ [Validated it acc, Print ''Best checkpoint'']"
          using res h by simp
        have d: "write_failed r \<and>
           (\<exists>q acc. neutral q \<and> best_acc l < acc \<and>
                    evs = q @ [Validated it acc, Print ''Best checkpoint''] \<and> l' = l)"
          using pq(3) True e res h by blast
        have "progress evs = [] \<and> batches evs = []"
          using pq e by (simp add: progress_append batches_append) (simp add: progress_def batches_def)
        then show ?thesis using d by blast
      qed
    qed
  qed
qed

text \<open>One pass through the loop body.\<close>

lemma train_body_unfold:
  "train_body L A it (l, s) =
     (let m1 = forward_base L (fst (next_batch L (batch_size A) (scheduler_step L (world s)))) (the_model s);
          mw = backward_step L m1 (snd (next_batch L (batch_size A) (scheduler_step L (world s))));
          l1 = l\<lparr>iter_loss := iter_loss l + loss m1,
                 iter_right := iter_right l + accuracy m1,
                 iter_sample := iter_sample l + 1\<rparr>;
          s1 = s\<lparr>the_model := fst mw, world := snd mw\<rparr>;
          ev1 = [Batch it (params (the_model s)),
                 TrainProgress (it + 1) (iter_loss l1 / real (iter_sample l1))
                   (100 * iter_right l1 / real (iter_sample l1))];
          l2 = (if it mod val_step A = 0
                then l1\<lparr>iter_loss := 0, iter_right := 0, iter_sample := 0\<rparr> else l1)
      in if val_step A = 0 then (Some ZeroDivisionError, (l1, s1), ev1)
         else if (it + 1) mod val_step A = 0 then
                (case validate L A it (l2, s1) of (r, ls3, evs) \<Rightarrow> (r, ls3, ev1 @ evs))
              else (None, (l2, s1), ev1))"
  by (simp add: train_body_def Let_def split_def)

lemma train_body_shape:
  assumes "train_body L A it (l, s) = (r, (l', s'), evs)"
  shows "map fst (progress evs) = [it + 1] \<and> batches evs = [(it, params (the_model s))] \<and>
         ((neutral evs \<and> (r = None \<or> r = Some ZeroDivisionError) \<and>
           best_acc l' = best_acc l \<and> files s' = files s \<and>
           (r = None \<longrightarrow> val_step A \<noteq> 0 \<and> (it + 1) mod val_step A \<noteq> 0)) \<or>
          (r = None \<and> val_step A \<noteq> 0 \<and> (it + 1) mod val_step A = 0 \<and>
           (\<exists>q acc. neutral q \<and> \<not> best_acc l < acc \<and> evs = q @ [Validated it acc] \<and>
                    best_acc l' = best_acc l \<and> files s' = files s)) \<or>
          (r = None \<and> val_step A \<noteq> 0 \<and> (it + 1) mod val_step A = 0 \<and>
           (\<exists>q acc. neutral q \<and> best_acc l < acc \<and>
                    evs = q @ [Validated it acc, Print ''Best checkpoint'', TorchSave (save_path A)] \<and>
                    best_acc l' = acc)) \<or>
          (write_failed r \<and> val_step A \<noteq> 0 \<and> (it + 1) mod val_step A = 0 \<and>
           (\<exists>q acc. neutral q \<and> best_acc l < acc \<and>
                    evs = q @ [Validated it acc, Print ''Best checkpoint''])))"
    (is "?P \<and> ?B \<and> (?D1 \<or> ?D2 \<or> ?D3 \<or> ?D4)")
proof -
  define m1 where "m1 = forward_base L (fst (next_batch L (batch_size A) (scheduler_step L (world s)))) (the_model s)"
  define mw where "mw = backward_step L m1 (snd (next_batch L (batch_size A) (scheduler_step L (world s))))"
  define l1 where "l1 = l\<lparr>iter_loss := iter_loss l + loss m1,
                   iter_right := iter_right l + accuracy m1,
                   iter_sample := iter_sample l + 1\<rparr>"
  define s1 where "s1 = s\<lparr>the_model := fst mw, world := snd mw\<rparr>"
  define ev1 :: "'a event list" where "ev1 = [Batch it (params (the_model s)),
          TrainProgress (it + 1) (iter_loss l1 / real (iter_sample l1))
                     (100 * iter_right l1 / real (iter_sample l1))]"
  define l2 where "l2 = (if it mod val_step A = 0
                       then l1\<lparr>iter_loss := 0, iter_right := 0, iter_sample := 0\<rparr> else l1)"
  have body: "train_body L A it (l, s) =
      (if val_step A = 0 then (Some ZeroDivisionError, (l1, s1), ev1)
       else if (it + 1) mod val_step A = 0 then
              (case validate L A it (l2, s1) of (r, ls3, evs) \<Rightarrow> (r, ls3, ev1 @ evs))
            else (None, (l2, s1), ev1))"
    unfolding train_body_unfold Let_def m1_def mw_def l1_def s1_def ev1_def l2_def by (rule refl)
  have b1: "best_acc l1 = best_acc l" by (simp add: l1_def)
  have b2: "best_acc l2 = best_acc l" by (simp add: l2_def b1)
  have f1: "files s1 = files s" by (simp add: s1_def)
  have n1: "neutral ev1" by (simp add: ev1_def neutral_def)
  have p1: "map fst (progress ev1) = [it + 1]" by (simp add: ev1_def progress_def)
  have t1: "batches ev1 = [(it, params (the_model s))]" by (simp add: ev1_def batches_def)
  show ?thesis
  proof (cases "val_step A = 0")
    case True
    have "r = Some ZeroDivisionError" "l' = l1" "s' = s1" "evs = ev1"
      using assms body True by simp_all
    then have ?P ?B ?D1 using b1 f1 n1 p1 t1 by simp_all
    then show ?thesis by blast
  next
    case nz: False
    show ?thesis
    proof (cases "(it + 1) mod val_step A = 0")
      case False
      have "r = None" "l' = l2" "s' = s1" "evs = ev1"
        using assms body nz False by simp_all
      then have ?P ?B ?D1 using b2 f1 n1 p1 t1 nz False by simp_all
      then show ?thesis by blast
    next
      case True
      obtain r3 l3 s3 evs3 where v: "validate L A it (l2, s1) = (r3, (l3, s3), evs3)"
        by (metis prod.exhaust)
      have res: "r = r3" "l' = l3" "s' = s3" "evs = ev1 @ evs3"
        using assms body nz True v by simp_all
      note sh = validate_shape [OF v]
      have pb: "progress evs3 = []" "batches evs3 = []"
        using sh by simp_all
      have P: ?P using p1 pb by (simp add: res progress_append)
      have B: ?B using t1 pb by (simp add: res batches_append)
      have cases3: "(r3 = Some ZeroDivisionError \<and> neutral evs3 \<and> l3 = l2 \<and> files s3 = files s1) \<or>
          (r3 = None \<and>
           (\<exists>q acc. neutral q \<and> \<not> best_acc l2 < acc \<and> evs3 = q @ [Validated it acc] \<and>
                    l3 = l2 \<and> files s3 = files s1)) \<or>
          (r3 = None \<and>
           (\<exists>q acc. neutral q \<and> best_acc l2 < acc \<and>
                    evs3 = q @ [Validated it acc, Print ''Best checkpoint'', TorchSave (save_path A)] \<and>
                    l3 = l2\<lparr>best_acc := acc\<rparr>)) \<or>
          (write_failed r3 \<and>
           (\<exists>q acc. neutral q \<and> best_acc l2 < acc \<and>
                    evs3 = q @ [Validated it acc, Print ''Best checkpoint''] \<and> l3 = l2))"
        using sh by (rule conjunct2 [OF conjunct2])
      from cases3 have "?D1 \<or> ?D2 \<or> ?D3 \<or> ?D4"
      proof (elim disjE conjE exE)
        assume h: "r3 = Some ZeroDivisionError" "neutral evs3" "l3 = l2" "files s3 = files s1"
        have ?D1 using h n1 b2 f1 by (simp add: res)
        then show ?thesis by (rule disjI1)
      next
        fix q acc
        assume h: "r3 = None" "neutral q" "\<not> best_acc l2 < acc" "evs3 = q @ [Validated it acc]"
          "l3 = l2" "files s3 = files s1"
        have nq: "neutral (ev1 @ q)" using n1 h(2) by simp
        have eq: "evs = (ev1 @ q) @ [Validated it acc]" using h(4) by (simp add: res)
        have ?D2
        proof (intro conjI exI)
          show "r = None" using h(1) by (simp add: res)
          show "val_step A \<noteq> 0" by (rule nz)
          show "(it + 1) mod val_step A = 0" by (rule True)
          show "neutral (ev1 @ q)" by (rule nq)
          show "\<not> best_acc l < acc" using h(3) b2 by simp
          show "evs = (ev1 @ q) @ [Validated it acc]" by (rule eq)
          show "best_acc l' = best_acc l" using h(5) b2 by (simp add: res)
          show "files s' = files s" using h(6) f1 by (simp add: res)
        qed
        then show ?thesis by (intro disjI2 disjI1)
      next
        fix q acc
        assume h: "r3 = None" "neutral q" "best_acc l2 < acc"
          "evs3 = q @ [Validated it acc, Print ''Best checkpoint'', TorchSave (save_path A)]"
          "l3 = l2\<lparr>best_acc := acc\<rparr>"
        have nq: "neutral (ev1 @ q)" using n1 h(2) by simp
        have eq: "evs = (ev1 @ q) @ [Validated it acc, Print ''Best checkpoint'', TorchSave (save_path A)]"
          using h(4) by (simp add: res)
        have ?D3
        proof (intro conjI exI)
          show "r = None" using h(1) by (simp add: res)
          show "val_step A \<noteq> 0" by (rule nz)
          show "(it + 1) mod val_step A = 0" by (rule True)
          show "neutral (ev1 @ q)" by (rule nq)
          show "best_acc l < acc" using h(3) b2 by simp
          show "evs = (ev1 @ q) @ [Validated it acc, Print ''Best checkpoint'', TorchSave (save_path A)]"
            by (rule eq)
          show "best_acc l' = acc" using h(5) by (simp add: res)
        qed
        then show ?thesis by (intro disjI2 disjI1)
      next
        fix q acc
        assume h: "write_failed r3" "neutral q" "best_acc l2 < acc"
          "evs3 = q @ [Validated it acc, Print ''Best checkpoint'']" "l3 = l2"
        have nq: "neutral (ev1 @ q)" using n1 h(2) by simp
        have eq: "evs = (ev1 @ q) @ [Validated it acc, Print ''Best checkpoint'']"
          using h(4) by (simp add: res)
        have ?D4
        proof (intro conjI exI)
          show "write_failed r" using h(1) by (simp add: res)
          show "val_step A \<noteq> 0" by (rule nz)
          show "(it + 1) mod val_step A = 0" by (rule True)
          show "neutral (ev1 @ q)" by (rule nq)
          show "best_acc l < acc" using h(3) b2 by simp
          show "evs = (ev1 @ q) @ [Validated it acc, Print ''Best checkpoint'']" by (rule eq)
        qed
        then show ?thesis by (intro disjI2)
      qed
      with P B show ?thesis by (intro conjI)
    qed
  qed
qed

lemma train_body_ok:
  assumes "val_step A \<noteq> 0" and "1 \<le> val_iter A"
  shows "fst (train_body L A it (l, s)) = None \<or> write_failed (fst (train_body L A it (l, s)))"
proof -
  obtain r l' s' evs where b: "train_body L A it (l, s) = (r, (l', s'), evs)"
    by (metis prod.exhaust)
  have v: "fst (validate L A it (l0, s0)) \<noteq> Some ZeroDivisionError" for l0 s0
  proof -
    obtain acc where a: "fst (eval L 10 10 2 (val_iter A) None s0) = Inr acc"
      using eval_None_returns [OF assms(2)] by blast
    obtain s1 evs1 where e: "eval L 10 10 2 (val_iter A) None s0 = (Inr acc, s1, evs1)"
      using a by (metis fst_conv prod.exhaust)
    obtain r2 l2 s2 evs2 where sb: "save_best L A acc (l0, s1) = (r2, (l2, s2), evs2)"
      by (metis prod.exhaust)
    have "r2 \<noteq> Some ZeroDivisionError"
      using save_best_shape [OF sb] by (auto simp: write_failed_def)
    then show ?thesis
      using e sb by (simp add: validate_def)
  qed
  have "r \<noteq> Some ZeroDivisionError"
    using b assms(1) v by (auto simp: train_body_unfold Let_def split_def split: if_splits)
  then show ?thesis
    using train_body_shape [OF b] by (auto simp: b)
qed

lemma validations_at:
  "neutral q \<Longrightarrow> validations (q @ Validated it acc # X) = (it, acc, written_next X) # validations X"
  by (simp add: neutral_validations)

lemma written_next_at: "neutral q \<Longrightarrow> \<not> written_next (q @ Validated it acc # X)"
  by (simp add: neutral_written_next)

lemma improvements_append:
  "improvements b (xs @ ys) = improvements b xs @ improvements (foldl max b xs) ys"
  by (induction xs arbitrary: b) simp_all

lemma improvements_nth:
  "k < length as \<Longrightarrow> improvements b as ! k \<longleftrightarrow> (b < as ! k \<and> (\<forall>j<k. as ! j < as ! k))"
proof (induction as arbitrary: b k)
  case Nil
  then show ?case by simp
next
  case (Cons a as)
  show ?case
  proof (cases k)
    case 0
    then show ?thesis by simp
  next
    case (Suc m)
    then have m: "m < length as" using Cons.prems by simp
    have "improvements (max b a) as ! m \<longleftrightarrow> (max b a < as ! m \<and> (\<forall>j<m. as ! j < as ! m))"
      by (rule Cons.IH [OF m])
    moreover have "(\<forall>j<Suc m. (a # as) ! j < as ! m) \<longleftrightarrow> (a < as ! m \<and> (\<forall>j<m. as ! j < as ! m))"
      by (auto simp: less_Suc_eq_0_disj)
    ultimately show ?thesis
      using Suc by auto
  qed
qed

lemma write_failed_simps [simp]:
  "\<not> write_failed None" "\<not> write_failed (Some ZeroDivisionError)"
  by (simp_all add: write_failed_def)

text \<open>The effect of one pass on the trace that follows it.\<close>

lemma train_body_then:
  assumes b: "train_body L A it (l, s) = (rb, (lb, sb), eb)" and X: "\<not> written_next X"
  shows "\<not> written_next (eb @ X) \<and>
         val_accs (eb @ X) = val_accs eb @ val_accs X \<and>
         val_written (eb @ X) = val_written eb @ val_written X \<and>
         saves (eb @ X) = map (\<lambda>w. save_path A) (filter (\<lambda>w. w) (val_written eb)) @ saves X \<and>
         (\<not> write_failed rb \<longrightarrow>
            val_written eb = improvements (best_acc l) (val_accs eb) \<and>
            best_acc lb = foldl max (best_acc l) (val_accs eb)) \<and>
         (write_failed rb \<longrightarrow> (\<exists>a. val_accs eb = [a] \<and> val_written eb = [False] \<and> best_acc l < a)) \<and>
         (\<not> (\<exists>a \<in> set (val_accs eb). best_acc l < a) \<longrightarrow> files sb = files s \<and> \<not> write_failed rb) \<and>
         (rb = None \<longrightarrow>
            map fst (validations (eb @ X)) =
              (if (it + 1) mod val_step A = 0 then [it] else []) @ map fst (validations X))"
proof -
  note sh = train_body_shape [OF b]
  have d: "(neutral eb \<and> (rb = None \<or> rb = Some ZeroDivisionError) \<and>
           best_acc lb = best_acc l \<and> files sb = files s \<and>
           (rb = None \<longrightarrow> val_step A \<noteq> 0 \<and> (it + 1) mod val_step A \<noteq> 0)) \<or>
          (rb = None \<and> val_step A \<noteq> 0 \<and> (it + 1) mod val_step A = 0 \<and>
           (\<exists>q acc. neutral q \<and> \<not> best_acc l < acc \<and> eb = q @ [Validated it acc] \<and>
                    best_acc lb = best_acc l \<and> files sb = files s)) \<or>
          (rb = None \<and> val_step A \<noteq> 0 \<and> (it + 1) mod val_step A = 0 \<and>
           (\<exists>q acc. neutral q \<and> best_acc l < acc \<and>
                    eb = q @ [Validated it acc, Print ''Best checkpoint'', TorchSave (save_path A)] \<and>
                    best_acc lb = acc)) \<or>
          (write_failed rb \<and> val_step A \<noteq> 0 \<and> (it + 1) mod val_step A = 0 \<and>
           (\<exists>q acc. neutral q \<and> best_acc l < acc \<and>
                    eb = q @ [Validated it acc, Print ''Best checkpoint'']))"
    using conjunct2 [OF conjunct2 [OF sh]] by simp
  from d show ?thesis
  proof (elim disjE exE; (elim conjE exE)?)
    assume h: "neutral eb" "rb = None \<or> rb = Some ZeroDivisionError" "best_acc lb = best_acc l"
      "files sb = files s" "rb = None \<longrightarrow> val_step A \<noteq> 0 \<and> (it + 1) mod val_step A \<noteq> 0"
    have v: "validations (eb @ X) = validations X" "validations eb = []"
      using h(1) by (simp_all add: neutral_validations neutral_validations_Nil)
    have nf: "\<not> write_failed rb" using h(2) by auto
    show ?thesis
      using h(3,4,5) nf X v neutral_written_next [OF h(1), of X] neutral_saves [OF h(1)]
      by (auto simp: val_accs_def val_written_def saves_append)
  next
    fix q acc
    assume h: "rb = None" "val_step A \<noteq> 0" "(it + 1) mod val_step A = 0" "neutral q"
      "\<not> best_acc l < acc" "eb = q @ [Validated it acc]" "best_acc lb = best_acc l"
      "files sb = files s"
    have v: "validations (eb @ X) = (it, acc, False) # validations X" "validations eb = [(it, acc, False)]"
      using validations_at [OF h(4), of it acc X] validations_at [OF h(4), of it acc "[]"] X
      by (simp_all add: h(6))
    have w: "\<not> written_next (eb @ X)"
      using written_next_at [OF h(4), of it acc X] by (simp add: h(6))
    have sv: "saves (eb @ X) = saves X"
      using neutral_saves [OF h(4)] by (simp add: h(6) saves_append) (simp add: saves_def)
    show ?thesis
      using h(1,3,5,7,8) v w sv by (simp add: val_accs_def val_written_def max_def)
  next
    fix q acc
    assume h: "rb = None" "val_step A \<noteq> 0" "(it + 1) mod val_step A = 0" "neutral q"
      "best_acc l < acc"
      "eb = q @ [Validated it acc, Print ''Best checkpoint'', TorchSave (save_path A)]"
      "best_acc lb = acc"
    have v: "validations (eb @ X) = (it, acc, True) # validations X" "validations eb = [(it, acc, True)]"
      using validations_at [OF h(4), of it acc "Print ''Best checkpoint'' # TorchSave (save_path A) # X"]
        validations_at [OF h(4), of it acc "[Print ''Best checkpoint'', TorchSave (save_path A)]"]
      by (simp_all add: h(6))
    have w: "\<not> written_next (eb @ X)"
      using written_next_at [OF h(4), of it acc "Print ''Best checkpoint'' # TorchSave (save_path A) # X"]
      by (simp add: h(6))
    have sv: "saves (eb @ X) = save_path A # saves X"
      using neutral_saves [OF h(4)] by (simp add: h(6) saves_append) (simp add: saves_def)
    show ?thesis
      using h(1,3,5,7) v w sv by (simp add: val_accs_def val_written_def max_def)
  next
    fix q acc
    assume h: "write_failed rb" "val_step A \<noteq> 0" "(it + 1) mod val_step A = 0" "neutral q"
      "best_acc l < acc" "eb = q @ [Validated it acc, Print ''Best checkpoint'']"
    have v: "validations (eb @ X) = (it, acc, False) # validations X" "validations eb = [(it, acc, False)]"
      using validations_at [OF h(4), of it acc "Print ''Best checkpoint'' # X"]
        validations_at [OF h(4), of it acc "[Print ''Best checkpoint'']"] X
      by (simp_all add: h(6))
    have w: "\<not> written_next (eb @ X)"
      using written_next_at [OF h(4), of it acc "Print ''Best checkpoint'' # X"]
      by (simp add: h(6))
    have sv: "saves (eb @ X) = saves X"
      using neutral_saves [OF h(4)] by (simp add: h(6) saves_append) (simp add: saves_def)
    have "rb \<noteq> None" using h(1) by (cases rb) simp_all
    then show ?thesis
      using h(1,5) v w sv by (simp add: val_accs_def val_written_def)
  qed
qed

lemma foldl_max_same: "\<not> (\<exists>a \<in> set xs. b < a) \<Longrightarrow> foldl max b xs = (b::real)"
  by (induction xs) (auto simp: max_def)

text \<open>The whole loop, from any values of its local variables: validations and writes.\<close>

lemma train_loop_written:
  assumes "train_loop L A its (l, s) = (r, (l', s'), evs)"
  shows "\<not> written_next evs \<and>
         (\<not> write_failed r \<longrightarrow> val_written evs = improvements (best_acc l) (val_accs evs)) \<and>
         (write_failed r \<longrightarrow>
            (\<exists>xs a. val_accs evs = xs @ [a] \<and>
                    val_written evs = improvements (best_acc l) xs @ [False] \<and>
                    foldl max (best_acc l) xs < a)) \<and>
         saves evs = map (\<lambda>w. save_path A) (filter (\<lambda>w. w) (val_written evs)) \<and>
         (\<not> (\<exists>a \<in> set (val_accs evs). best_acc l < a) \<longrightarrow> files s' = files s \<and> \<not> write_failed r)"
  using assms
proof (induction its arbitrary: l s r l' s' evs)
  case Nil
  then show ?case
    by (simp add: val_written_def val_accs_def saves_def)
next
  case (Cons it its)
  obtain rb lb sb eb where b: "train_body L A it (l, s) = (rb, (lb, sb), eb)"
    by (metis prod.exhaust)
  show ?case
  proof (cases rb)
    case (Some e)
    have res: "r = rb" "l' = lb" "s' = sb" "evs = eb"
      using Cons.prems b Some by simp_all
    have n0: "\<not> written_next []" by simp
    note t = train_body_then [OF b n0]
    have c1: "\<not> written_next eb" using t by simp
    have c2: "\<not> write_failed rb \<longrightarrow> val_written eb = improvements (best_acc l) (val_accs eb)"
      using t by simp
    have c3: "write_failed rb \<longrightarrow>
            (\<exists>xs a. val_accs eb = xs @ [a] \<and>
                    val_written eb = improvements (best_acc l) xs @ [False] \<and>
                    foldl max (best_acc l) xs < a)"
    proof
      assume "write_failed rb"
      then obtain a where a: "val_accs eb = [a]" "val_written eb = [False]" "best_acc l < a"
        using t by auto
      have "val_accs eb = [] @ [a] \<and> val_written eb = improvements (best_acc l) [] @ [False] \<and>
          foldl max (best_acc l) [] < a"
        using a by simp
      then show "\<exists>xs a. val_accs eb = xs @ [a] \<and>
                    val_written eb = improvements (best_acc l) xs @ [False] \<and>
                    foldl max (best_acc l) xs < a"
        by blast
    qed
    have c4: "saves eb = map (\<lambda>w. save_path A) (filter (\<lambda>w. w) (val_written eb))"
      using t by (simp add: saves_def)
    have c5: "\<not> (\<exists>a \<in> set (val_accs eb). best_acc l < a) \<longrightarrow> files sb = files s \<and> \<not> write_failed rb"
      using t by blast
    show ?thesis
      unfolding res using c1 c2 c3 c4 c5 by (intro conjI)
  next
    case None
    obtain r2 l2 s2 e2 where rest: "train_loop L A its (lb, sb) = (r2, (l2, s2), e2)"
      by (metis prod.exhaust)
    have res: "r = r2" "l' = l2" "s' = s2" "evs = eb @ e2"
      using Cons.prems b None rest by simp_all
    note ih = Cons.IH [OF rest]
    have nw: "\<not> written_next e2" using ih by simp
    note t = train_body_then [OF b nw]
    have nf: "\<not> write_failed rb" using None by simp
    have best: "best_acc lb = foldl max (best_acc l) (val_accs eb)" using t nf by simp
    have accs: "val_accs (eb @ e2) = val_accs eb @ val_accs e2" using t by simp
    have wr0: "val_written (eb @ e2) = improvements (best_acc l) (val_accs eb) @ val_written e2"
      using t nf by simp
    have c1: "\<not> written_next (eb @ e2)" using t by simp
    have c2: "\<not> write_failed r2 \<longrightarrow>
        val_written (eb @ e2) = improvements (best_acc l) (val_accs (eb @ e2))"
      using ih by (simp add: wr0 accs improvements_append best)
    have c3: "write_failed r2 \<longrightarrow>
            (\<exists>xs a. val_accs (eb @ e2) = xs @ [a] \<and>
                    val_written (eb @ e2) = improvements (best_acc l) xs @ [False] \<and>
                    foldl max (best_acc l) xs < a)"
    proof
      assume "write_failed r2"
      then obtain xs a where x: "val_accs e2 = xs @ [a]"
        "val_written e2 = improvements (best_acc lb) xs @ [False]"
        "foldl max (best_acc lb) xs < a"
        using ih by blast
      have "val_accs (eb @ e2) = (val_accs eb @ xs) @ [a] \<and>
          val_written (eb @ e2) = improvements (best_acc l) (val_accs eb @ xs) @ [False] \<and>
          foldl max (best_acc l) (val_accs eb @ xs) < a"
        using x by (simp add: accs wr0 improvements_append best)
      then show "\<exists>xs a. val_accs (eb @ e2) = xs @ [a] \<and>
                    val_written (eb @ e2) = improvements (best_acc l) xs @ [False] \<and>
                    foldl max (best_acc l) xs < a"
        by blast
    qed
    have c4: "saves (eb @ e2) = map (\<lambda>w. save_path A) (filter (\<lambda>w. w) (val_written (eb @ e2)))"
    proof -
      have "val_written (eb @ e2) = val_written eb @ val_written e2"
        using t by simp
      moreover have "saves e2 = map (\<lambda>w. save_path A) (filter (\<lambda>w. w) (val_written e2))"
        using ih by simp
      ultimately show ?thesis using t by simp
    qed
    have c5: "\<not> (\<exists>a \<in> set (val_accs (eb @ e2)). best_acc l < a) \<longrightarrow>
        files s2 = files s \<and> \<not> write_failed r2"
    proof
      assume no: "\<not> (\<exists>a \<in> set (val_accs (eb @ e2)). best_acc l < a)"
      have n1: "\<not> (\<exists>a \<in> set (val_accs eb). best_acc l < a)"
        and n2: "\<not> (\<exists>a \<in> set (val_accs e2). best_acc l < a)"
        using no by (auto simp: accs)
      have "best_acc lb = best_acc l"
        using best foldl_max_same [OF n1] by simp
      then have "files s2 = files sb \<and> \<not> write_failed r2" using ih n2 by simp
      moreover have "files sb = files s" using t n1 by blast
      ultimately show "files s2 = files s \<and> \<not> write_failed r2" by simp
    qed
    show ?thesis
      unfolding res using c1 c2 c3 c4 c5 by (intro conjI)
  qed
qed

text \<open>The whole loop: the passes made and what they show.\<close>

lemma train_loop_steps:
  assumes "train_loop L A its (l, s) = (r, (l', s'), evs)"
  shows "map fst (batches evs) = take (length (batches evs)) its \<and>
         map fst (progress evs) = map (\<lambda>it. it + 1) (map fst (batches evs)) \<and>
         (r = None \<longrightarrow>
            map fst (batches evs) = its \<and>
            map fst (validations evs) = filter (\<lambda>it. (it + 1) mod val_step A = 0) its) \<and>
         (its \<noteq> [] \<longrightarrow> batches evs \<noteq> [] \<and> hd (batches evs) = (hd its, params (the_model s)))"
  using assms
proof (induction its arbitrary: l s r l' s' evs)
  case Nil
  then show ?case
    by (simp add: batches_def progress_def)
next
  case (Cons it its)
  obtain rb lb sb eb where b: "train_body L A it (l, s) = (rb, (lb, sb), eb)"
    by (metis prod.exhaust)
  note sh = train_body_shape [OF b]
  have pe: "map fst (progress eb) = [it + 1]" and be: "batches eb = [(it, params (the_model s))]"
    using sh by simp_all
  show ?case
  proof (cases rb)
    case (Some e)
    have res: "r = rb" "l' = lb" "s' = sb" "evs = eb"
      using Cons.prems b Some by simp_all
    show ?thesis
      unfolding res using pe be Some by simp
  next
    case None
    obtain r2 l2 s2 e2 where rest: "train_loop L A its (lb, sb) = (r2, (l2, s2), e2)"
      by (metis prod.exhaust)
    have res: "r = r2" "l' = l2" "s' = s2" "evs = eb @ e2"
      using Cons.prems b None rest by simp_all
    note ih = Cons.IH [OF rest]
    have nw: "\<not> written_next e2"
      using train_loop_written [OF rest] by simp
    have v: "map fst (validations (eb @ e2)) =
        (if (it + 1) mod val_step A = 0 then [it] else []) @ map fst (validations e2)"
      using train_body_then [OF b nw] None by simp
    have c1: "map fst (batches (eb @ e2)) = take (length (batches (eb @ e2))) (it # its)"
      using conjunct1 [OF ih] be by (simp add: batches_append)
    have p2: "map fst (progress e2) = map (\<lambda>it. it + 1) (map fst (batches e2))"
      using ih by (rule conjunct1 [OF conjunct2])
    have c2: "map fst (progress (eb @ e2)) = map (\<lambda>it. it + 1) (map fst (batches (eb @ e2)))"
      by (simp add: batches_append progress_append pe be p2 del: map_map)
    have c3: "r2 = None \<longrightarrow>
            map fst (batches (eb @ e2)) = it # its \<and>
            map fst (validations (eb @ e2)) = filter (\<lambda>it. (it + 1) mod val_step A = 0) (it # its)"
      using conjunct1 [OF conjunct2 [OF conjunct2 [OF ih]]] be v by (simp add: batches_append)
    have c4: "it # its \<noteq> [] \<longrightarrow>
        batches (eb @ e2) \<noteq> [] \<and> hd (batches (eb @ e2)) = (hd (it # its), params (the_model s))"
      using be by (simp add: batches_append)
    show ?thesis
      unfolding res using c1 c2 c3 c4 by (intro conjI)
  qed
qed

lemma train_loop_ok:
  assumes "val_step A \<noteq> 0" and "1 \<le> val_iter A"
  shows "fst (train_loop L A its ls) = None \<or> write_failed (fst (train_loop L A its ls))"
proof (induction its arbitrary: ls)
  case Nil
  show ?case by simp
next
  case (Cons it its)
  obtain l s where ls: "ls = (l, s)" by (cases ls)
  obtain rb ls1 eb where b: "train_body L A it (l, s) = (rb, ls1, eb)"
    by (metis prod.exhaust)
  have "rb = None \<or> write_failed rb"
    using train_body_ok [OF assms, of L it l s] b by simp
  then show ?case
    using Cons.IH [of ls1] b ls by (cases rb) (auto simp: split_def)
qed

lemma written_next_neutral_right: "neutral N \<Longrightarrow> written_next (E @ N) = written_next E"
  by (induction E) (auto simp: neutral_not_written split: event.splits)

lemma validations_neutral_right: "neutral N \<Longrightarrow> validations (E @ N) = validations E"
  by (induction E)
     (auto simp: neutral_validations_Nil written_next_neutral_right split: event.splits)

subsection \<open>Initialisation and the whole of train\<close>

lemma train_init_quiet:
  "train_init L A s = (r, s0, ev0) \<Longrightarrow>
   files s0 = files s \<and> neutral ev0 \<and> progress ev0 = [] \<and> test_accuracies ev0 = [] \<and>
   batches ev0 = [] \<and> (\<forall>e. r = Inl e \<longrightarrow> (\<forall>p. e \<noteq> OSError p))"
  by (auto simp: train_init_def Let_def load_model_def getitem_def load_state_dict_def neutral_def
      progress_def test_accuracies_def batches_def
      split: option.splits node.splits sum.splits pyval.splits if_splits)

lemma train_init_fresh:
  "pretrain_model A = None \<Longrightarrow>
   train_init L A s =
     (Inr 0,
      s\<lparr>world := make_optimizer L (learning_rate A) (weight_decay A) (lr_step_size A)
                     (the_model s) (world s)\<rparr>,
      [Print ''Start training...''])"
  by (simp add: train_init_def Let_def)


lemma finish_lines_quiet:
  "neutral (finish_lines A) \<and> progress (finish_lines A) = [] \<and>
   test_accuracies (finish_lines A) = [] \<and> batches (finish_lines A) = []"
  by (simp add: finish_lines_def neutral_def progress_def test_accuracies_def batches_def)

lemma train_failed_init:
  "train_init L A s = (Inl e, s0, ev0) \<Longrightarrow> train L A s = (Inl e, s0, ev0)"
  by (simp add: train_def)

text \<open>
  The trace of a run that got past initialisation: what was printed first, the trace of
  the loop, and a tail that holds no training step, no validation and no write.
\<close>

lemma train_trace:
  assumes i: "train_init L A s = (Inr start, s0, ev0)"
    and lp: "train_loop L A [start .. start + train_iter A - 1] (init_locals, s0) = (r1, (l1, s1), ev1)"
  shows "\<exists>tl. train_events L A s = ev0 @ ev1 @ tl \<and> neutral tl \<and> progress tl = [] \<and>
              batches tl = [] \<and>
              (r1 \<noteq> None \<longrightarrow> tl = [] \<and> fst (train L A s) = Inl (the r1)) \<and>
              (r1 = None \<longrightarrow>
                 (case eval L 10 10 2 (test_iter A) (Some (save_path A)) s1 of
                    (Inl e, s2, ev2) \<Rightarrow>
                       tl = finish_lines A @ ev2 \<and> fst (train L A s) = Inl e
                  | (Inr a, s2, ev2) \<Rightarrow>
                       tl = finish_lines A @ ev2 @ [TestAccuracy a] \<and> fst (train L A s) = Inr ()))"
proof (cases r1)
  case (Some e)
  then show ?thesis
    using i lp by (simp add: train_def train_events_def neutral_def progress_def batches_def)
next
  case None
  obtain r2 s2 ev2 where e: "eval L 10 10 2 (test_iter A) (Some (save_path A)) s1 = (r2, s2, ev2)"
    by (metis prod.exhaust)
  note q = eval_quiet [OF e]
  have q': "neutral ev2" "progress ev2 = []" "batches ev2 = []"
    using q by simp_all
  show ?thesis
  proof (cases r2)
    case (Inl err)
    have "train_events L A s = ev0 @ ev1 @ finish_lines A @ ev2" "fst (train L A s) = Inl err"
      using i lp None e Inl by (simp_all add: train_def train_events_def)
    then show ?thesis
      using q' None e Inl by (simp add: progress_append batches_append finish_lines_quiet)
  next
    case (Inr a)
    have "train_events L A s = ev0 @ ev1 @ finish_lines A @ ev2 @ [TestAccuracy a]"
      "fst (train L A s) = Inr ()"
      using i lp None e Inr by (simp_all add: train_def train_events_def)
    moreover have "neutral [TestAccuracy a]" "progress [TestAccuracy a] = []"
      "batches [TestAccuracy a] = []"
      by (simp_all add: neutral_def progress_def batches_def)
    ultimately show ?thesis
      using q' None e Inr by (simp add: progress_append batches_append finish_lines_quiet)
  qed
qed

lemma train_trace_projections:
  assumes i: "train_init L A s = (Inr start, s0, ev0)"
    and lp: "train_loop L A [start .. start + train_iter A - 1] (init_locals, s0) = (r1, (l1, s1), ev1)"
  shows "validations (train_events L A s) = validations ev1 \<and>
         saves (train_events L A s) = saves ev1 \<and>
         progress (train_events L A s) = progress ev1 \<and>
         batches (train_events L A s) = batches ev1"
proof -
  obtain tl where tl: "train_events L A s = ev0 @ ev1 @ tl" "neutral tl" "progress tl = []"
    "batches tl = []"
    using train_trace [OF i lp] by blast
  note q = train_init_quiet [OF i]
  have "validations (ev0 @ ev1 @ tl) = validations (ev1 @ tl)"
    using q by (simp add: neutral_validations)
  then have v: "validations (ev0 @ ev1 @ tl) = validations ev1"
    using tl(2) by (simp add: validations_neutral_right)
  have sv: "saves (ev0 @ ev1 @ tl) = saves ev1"
    using q tl(2) by (simp add: saves_append neutral_saves)
  have pr: "progress (ev0 @ ev1 @ tl) = progress ev1"
    using q tl(3) by (simp add: progress_append)
  have bt: "batches (ev0 @ ev1 @ tl) = batches ev1"
    using q tl(4) by (simp add: batches_append)
  show ?thesis
    using v sv pr bt by (simp add: tl(1))
qed

text \<open>A run is ended by a refused write exactly when its loop is.\<close>

lemma train_write_failure:
  assumes i: "train_init L A s = (Inr start, s0, ev0)"
    and lp: "train_loop L A [start .. start + train_iter A - 1] (init_locals, s0) = (r1, (l1, s1), ev1)"
  shows "(\<exists>p. fst (train L A s) = Inl (OSError p)) \<longleftrightarrow> write_failed r1"
proof (cases r1)
  case (Some e)
  have "fst (train L A s) = Inl e"
    using i lp Some by (simp add: train_def)
  then show ?thesis
    using Some by (cases e) (simp_all add: write_failed_def)
next
  case None
  obtain r2 s2 ev2 where e: "eval L 10 10 2 (test_iter A) (Some (save_path A)) s1 = (r2, s2, ev2)"
    by (metis prod.exhaust)
  have "\<forall>x. r2 = Inl x \<longrightarrow> (\<forall>p. x \<noteq> OSError p)"
    using eval_quiet [OF e] by simp
  moreover have "fst (train L A s) = (case r2 of Inl x \<Rightarrow> Inl x | Inr a \<Rightarrow> Inr ())"
    using i lp None e by (cases r2) (simp_all add: train_def)
  ultimately show ?thesis
    using None by (cases r2) auto
qed

lemma train_written:
  "((\<nexists>p. fst (train L A s) = Inl (OSError p)) \<longrightarrow>
      val_written (train_events L A s) = improvements 0 (val_accs (train_events L A s))) \<and>
   ((\<exists>p. fst (train L A s) = Inl (OSError p)) \<longrightarrow>
      (\<exists>xs a. val_accs (train_events L A s) = xs @ [a] \<and>
              val_written (train_events L A s) = improvements 0 xs @ [False] \<and>
              foldl max 0 xs < a)) \<and>
   saves (train_events L A s) =
     map (\<lambda>w. save_path A) (filter (\<lambda>w. w) (val_written (train_events L A s)))"
proof (cases "train_init L A s")
  case (fields r0 s0 ev0)
  show ?thesis
  proof (cases r0)
    case (Inl e)
    then have ev: "train_events L A s = ev0" and out: "fst (train L A s) = Inl e"
      using fields by (simp_all add: train_events_def train_def)
    have "\<forall>p. e \<noteq> OSError p"
      using train_init_quiet [OF fields] Inl by simp
    then show ?thesis
      using train_init_quiet [OF fields] ev out
      by (simp add: val_written_def val_accs_def neutral_validations_Nil neutral_saves)
  next
    case (Inr start)
    obtain r1 l1 s1 ev1 where
      lp: "train_loop L A [start .. start + train_iter A - 1] (init_locals, s0) = (r1, (l1, s1), ev1)"
      by (metis prod.exhaust)
    have i: "train_init L A s = (Inr start, s0, ev0)" using fields Inr by simp
    note pj = train_trace_projections [OF i lp]
    note tr = train_loop_written [OF lp]
    note wf = train_write_failure [OF i lp]
    have b0: "best_acc init_locals = 0" by (simp add: init_locals_def)
    have va: "val_accs (train_events L A s) = val_accs ev1"
      "val_written (train_events L A s) = val_written ev1"
      "saves (train_events L A s) = saves ev1"
      using pj by (simp_all add: val_written_def val_accs_def)
    show ?thesis
      unfolding va wf using tr by (simp add: b0)
  qed
qed

subsection \<open>Concrete runs\<close>

lemmas demo_run_defs = run_defs demo_defs demo_rising_def demo_zero_def upto.simps Let_def

lemma demo_zero_run:
  "train (demo_lib demo_zero) (demo_args 4 2) demo_state =
     (Inl (NoCheckpointFound ''ckpt/m.pth.tar''),
      \<lparr>the_model = \<lparr>params = 4, m_loss = 4, m_accuracy = 0\<rparr>, world = (4, 2), files = Map.empty\<rparr>,
      [Print ''Start training...'', Batch 0 0, TrainProgress 1 1 100,
       Batch 1 1, TrainProgress 2 2 100, Print [],
       Episode ValLoader 2 0, EvalProgress 1 0, Print [], Validated 1 0,
       Batch 2 2, TrainProgress 3 (5 / 2) 100, Batch 3 3, TrainProgress 4 4 100, Print [],
       Episode ValLoader 4 0, EvalProgress 1 0, Print [], Validated 3 0,
       Print ''####################'', Print ''Finish training m'', Print []])"
  by (simp add: demo_run_defs)

lemma demo_rising_run:
  "validations (train_events (demo_lib demo_rising) (demo_args 10 5) demo_state) =
     [(4, 6 / 10, True), (9, 8 / 10, True)] \<and>
   saves (train_events (demo_lib demo_rising) (demo_args 10 5) demo_state) =
     [''ckpt/m.pth.tar'', ''ckpt/m.pth.tar''] \<and>
   fst (train (demo_lib demo_rising) (demo_args 10 5) demo_state) = Inr () \<and>
   test_accuracies (train_events (demo_lib demo_rising) (demo_args 10 5) demo_state) = [8 / 10]"
  by (simp add: demo_run_defs saves_def test_accuracies_def)

text \<open>
  With an empty \<^verbatim>\<open>ckpt_dir\<close> the first improving validation ends the run:
  \<^verbatim>\<open>os.path.exists('')\<close> is false and \<^verbatim>\<open>os.makedirs('')\<close> raises. One validation,
  the line \<^verbatim>\<open>Best checkpoint\<close>, no write.
\<close>

lemma demo_empty_dir_run:
  "fst (train (demo_lib demo_rising) ((demo_args 10 5)\<lparr>ckpt_dir := []\<rparr>) demo_state) = Inl (OSError []) \<and>
   validations (train_events (demo_lib demo_rising) ((demo_args 10 5)\<lparr>ckpt_dir := []\<rparr>) demo_state) =
     [(4, 6 / 10, False)] \<and>
   saves (train_events (demo_lib demo_rising) ((demo_args 10 5)\<lparr>ckpt_dir := []\<rparr>) demo_state) = [] \<and>
   map fst (batches (train_events (demo_lib demo_rising) ((demo_args 10 5)\<lparr>ckpt_dir := []\<rparr>) demo_state))
     = [0, 1, 2, 3, 4]"
  by (simp add: demo_run_defs saves_def batches_def)

text \<open>
  The same happens when \<^verbatim>\<open>ckpt_dir\<close> names a regular file: the directory is not
  created, since the path exists, and \<^verbatim>\<open>torch.save\<close> cannot open a file below it.
\<close>

lemma demo_dir_is_file_run:
  "fst (train (demo_lib demo_rising) (demo_args 10 5)
          (demo_state\<lparr>files := [''ckpt'' \<mapsto> File demo_ckpt]\<rparr>)) = Inl (OSError ''ckpt/m.pth.tar'') \<and>
   validations (train_events (demo_lib demo_rising) (demo_args 10 5)
          (demo_state\<lparr>files := [''ckpt'' \<mapsto> File demo_ckpt]\<rparr>)) = [(4, 6 / 10, False)] \<and>
   saves (train_events (demo_lib demo_rising) (demo_args 10 5)
          (demo_state\<lparr>files := [''ckpt'' \<mapsto> File demo_ckpt]\<rparr>)) = []"
  by (simp add: demo_run_defs saves_def)

subsection \<open>When a checkpoint is written\<close>

lemma length_improvements [simp]: "length (improvements b xs) = length xs"
  by (induction xs arbitrary: b) simp_all

text \<open>
  Claim C3, amended. In every run of \<^verbatim>\<open>Framework.train\<close>, at each validation step a
  checkpoint is written if and only if the accuracy returned at that step is strictly
  greater than 0, the initial best, and strictly greater than every accuracy returned at
  the earlier validation steps of the run, and the write is not refused. A refused write
  (the directory cannot be created or the file not opened) raises, which ends the run:
  it can only happen at the last validation step of a run, and that step writes nothing.
\<close>

theorem checkpoint_written_iff_improvement:
  assumes "k < length (val_accs (train_events L A s))"
  shows "val_written (train_events L A s) ! k \<longleftrightarrow>
           (0 < val_accs (train_events L A s) ! k \<and>
            (\<forall>j<k. val_accs (train_events L A s) ! j < val_accs (train_events L A s) ! k) \<and>
            \<not> ((\<exists>p. fst (train L A s) = Inl (OSError p)) \<and>
               Suc k = length (val_accs (train_events L A s))))"
proof (cases "\<exists>p. fst (train L A s) = Inl (OSError p)")
  case False
  then have "val_written (train_events L A s) = improvements 0 (val_accs (train_events L A s))"
    using train_written [of L A s] by blast
  then show ?thesis
    using improvements_nth [OF assms, of 0] False by simp
next
  case True
  then obtain xs a where x: "val_accs (train_events L A s) = xs @ [a]"
    "val_written (train_events L A s) = improvements 0 xs @ [False]"
    "foldl max 0 xs < a"
    using train_written [of L A s] by blast
  show ?thesis
  proof (cases "k < length xs")
    case k: True
    have "val_written (train_events L A s) ! k = improvements 0 xs ! k"
      using k by (simp add: x(2) nth_append)
    moreover have "val_accs (train_events L A s) ! j = xs ! j" if "j \<le> k" for j
      using that k by (simp add: x(1) nth_append)
    moreover have "Suc k \<noteq> length (val_accs (train_events L A s))"
      using k by (simp add: x(1))
    ultimately show ?thesis
      using improvements_nth [OF k, of 0] by simp
  next
    case False
    then have k: "k = length xs" using assms by (simp add: x(1))
    have "\<not> val_written (train_events L A s) ! k"
      by (simp add: x(2) k nth_append)
    moreover have "Suc k = length (val_accs (train_events L A s))"
      by (simp add: x(1) k)
    ultimately show ?thesis using True by simp
  qed
qed

theorem checkpoint_written_iff_improvement_witness:
  "(1::nat) < length (val_accs (train_events (demo_lib demo_rising) (demo_args 10 5) demo_state)) \<and>
   val_written (train_events (demo_lib demo_rising) (demo_args 10 5) demo_state) ! 1 \<and>
   0 < val_accs (train_events (demo_lib demo_rising) (demo_args 10 5) demo_state) ! 1 \<and>
   val_accs (train_events (demo_lib demo_rising) (demo_args 10 5) demo_state) ! 0
     < val_accs (train_events (demo_lib demo_rising) (demo_args 10 5) demo_state) ! 1 \<and>
   fst (train (demo_lib demo_rising) (demo_args 10 5) demo_state) = Inr () \<and>
   (0::nat) < length (val_accs (train_events (demo_lib demo_rising)
       ((demo_args 10 5)\<lparr>ckpt_dir := []\<rparr>) demo_state)) \<and>
   \<not> val_written (train_events (demo_lib demo_rising) ((demo_args 10 5)\<lparr>ckpt_dir := []\<rparr>) demo_state) ! 0 \<and>
   0 < val_accs (train_events (demo_lib demo_rising) ((demo_args 10 5)\<lparr>ckpt_dir := []\<rparr>) demo_state) ! 0 \<and>
   fst (train (demo_lib demo_rising) ((demo_args 10 5)\<lparr>ckpt_dir := []\<rparr>) demo_state) = Inl (OSError [])"
proof -
  have len: "(1::nat) < length (val_accs (train_events (demo_lib demo_rising) (demo_args 10 5) demo_state))"
    using demo_rising_run by (simp add: val_accs_def)
  have len0: "(0::nat) < length (val_accs (train_events (demo_lib demo_rising)
       ((demo_args 10 5)\<lparr>ckpt_dir := []\<rparr>) demo_state))"
    using demo_empty_dir_run by (simp add: val_accs_def)
  show ?thesis
    using len len0 checkpoint_written_iff_improvement [OF len]
      checkpoint_written_iff_improvement [OF len0] demo_rising_run demo_empty_dir_run
    by (simp add: val_accs_def val_written_def)
qed

text \<open>
  The claim as stated lets the first validation write a checkpoint whatever its
  accuracy. A run whose validations both return 0 writes nothing, not even at the first
  validation step, where no earlier accuracy exists.
\<close>

theorem first_validation_zero_counterexample:
  "val_accs (train_events (demo_lib demo_zero) (demo_args 4 2) demo_state) = [0, 0] \<and>
   \<not> (val_written (train_events (demo_lib demo_zero) (demo_args 4 2) demo_state) ! 0 \<longleftrightarrow>
        (\<forall>j<0. val_accs (train_events (demo_lib demo_zero) (demo_args 4 2) demo_state) ! j
                < val_accs (train_events (demo_lib demo_zero) (demo_args 4 2) demo_state) ! 0))"
  by (simp add: train_events_def demo_zero_run val_accs_def val_written_def)

subsection \<open>Ten iterations, validating every five\<close>

lemma upto_0_9: "[0 .. (9::int)] = [0, 1, 2, 3, 4, 5, 6, 7, 8, 9]"
  by (simp add: upto.simps)

text \<open>
  Claim C2, amended. \<^verbatim>\<open>Framework.train\<close> with \<^verbatim>\<open>train_iter = 10\<close>,
  \<^verbatim>\<open>val_step = 5\<close>, no pretrained checkpoint and at least one validation iteration,
  in a run that no refused write ends (the checkpoint directory can be created and the
  file opened), performs exactly two validation evaluations, at loop indices 4 and 9,
  that is after the fifth and after the tenth iteration. If they return the accuracies
  0.6 and 0.8, a checkpoint is written after each of them: two writes, both to the same
  path, since 0.6 beats the initial best 0 and 0.8 beats 0.6.
\<close>

theorem ten_iterations_two_validations:
  assumes "pretrain_model A = None" and "train_iter A = 10" and "val_step A = 5"
    and "1 \<le> val_iter A" and "\<forall>p. fst (train L A s) \<noteq> Inl (OSError p)"
  shows "map fst (validations (train_events L A s)) = [4, 9] \<and>
         (val_accs (train_events L A s) = [6 / 10, 8 / 10] \<longrightarrow>
            val_written (train_events L A s) = [True, True] \<and>
            saves (train_events L A s) = [save_path A, save_path A])"
proof -
  let ?s0 = "s\<lparr>world := make_optimizer L (learning_rate A) (weight_decay A) (lr_step_size A)
                     (the_model s) (world s)\<rparr>"
  have i: "train_init L A s = (Inr 0, ?s0, [Print ''Start training...''])"
    using assms(1) by (rule train_init_fresh)
  obtain r1 l1 s1 ev1 where
    lp: "train_loop L A [0 .. 0 + train_iter A - 1] (init_locals, ?s0) = (r1, (l1, s1), ev1)"
    by (metis prod.exhaust)
  have nf: "\<not> write_failed r1"
    using train_write_failure [OF i lp] assms(5) by simp
  have "val_step A \<noteq> 0" using assms(3) by simp
  then have "r1 = None"
    using train_loop_ok [OF _ assms(4), of L "[0 .. 0 + train_iter A - 1]" "(init_locals, ?s0)"] lp nf
    by simp
  then have "map fst (validations ev1) =
      filter (\<lambda>it. (it + 1) mod val_step A = 0) [0 .. 0 + train_iter A - 1]"
    using train_loop_steps [OF lp] by simp
  then have "map fst (validations ev1) = [4, 9]"
    by (simp add: assms(2,3) upto_0_9)
  then have idx: "map fst (validations (train_events L A s)) = [4, 9]"
    using train_trace_projections [OF i lp] by simp
  have nos: "\<nexists>p. fst (train L A s) = Inl (OSError p)"
    using assms(5) by simp
  have wr: "val_written (train_events L A s) = improvements 0 (val_accs (train_events L A s))"
    and sv: "saves (train_events L A s) =
      map (\<lambda>w. save_path A) (filter (\<lambda>w. w) (val_written (train_events L A s)))"
    using train_written [of L A s] nos by blast+
  have writes: "val_written (train_events L A s) = [True, True] \<and>
      saves (train_events L A s) = [save_path A, save_path A]"
    if "val_accs (train_events L A s) = [6 / 10, 8 / 10]"
    using wr sv that by simp
  show ?thesis
    using idx writes by blast
qed

theorem ten_iterations_two_validations_witness:
  "pretrain_model (demo_args 10 5) = None \<and> train_iter (demo_args 10 5) = 10 \<and>
   val_step (demo_args 10 5) = 5 \<and> 1 \<le> val_iter (demo_args 10 5) \<and>
   fst (train (demo_lib demo_rising) (demo_args 10 5) demo_state) = Inr () \<and>
   map fst (validations (train_events (demo_lib demo_rising) (demo_args 10 5) demo_state)) = [4, 9] \<and>
   val_accs (train_events (demo_lib demo_rising) (demo_args 10 5) demo_state) = [6 / 10, 8 / 10] \<and>
   val_written (train_events (demo_lib demo_rising) (demo_args 10 5) demo_state) = [True, True] \<and>
   saves (train_events (demo_lib demo_rising) (demo_args 10 5) demo_state)
     = [save_path (demo_args 10 5), save_path (demo_args 10 5)]"
proof -
  have h: "pretrain_model (demo_args 10 5) = None" "train_iter (demo_args 10 5) = 10"
    "val_step (demo_args 10 5) = 5" "1 \<le> val_iter (demo_args 10 5)"
    by (simp_all add: demo_args_def)
  have r: "fst (train (demo_lib demo_rising) (demo_args 10 5) demo_state) = Inr ()"
    using demo_rising_run by simp
  have h5: "\<forall>p. fst (train (demo_lib demo_rising) (demo_args 10 5) demo_state) \<noteq> Inl (OSError p)"
    by (simp add: r)
  have a: "val_accs (train_events (demo_lib demo_rising) (demo_args 10 5) demo_state) = [6 / 10, 8 / 10]"
    using demo_rising_run by (simp add: val_accs_def)
  show ?thesis
    using h r a ten_iterations_two_validations [OF h h5]
    by simp
qed

text \<open>
  The claim as stated has exactly one checkpoint write, after the second evaluation.
  The run below returns 0.6 and then 0.8 and writes twice.
\<close>

theorem one_write_counterexample:
  "val_accs (train_events (demo_lib demo_rising) (demo_args 10 5) demo_state) = [6 / 10, 8 / 10] \<and>
   length (saves (train_events (demo_lib demo_rising) (demo_args 10 5) demo_state)) = 2 \<and>
   val_written (train_events (demo_lib demo_rising) (demo_args 10 5) demo_state) ! 0"
  using demo_rising_run by (simp add: val_accs_def val_written_def)

subsection \<open>The test evaluation after the loop\<close>

lemma validate_no_test:
  assumes "validate L A it (l, s) = (r, ls', evs)"
  shows "test_accuracies evs = []"
proof (cases "eval L 10 10 2 (val_iter A) None s")
  case (fields r1 s1 evs1)
  note q = eval_quiet [OF fields]
  show ?thesis
    using assms fields q
    by (cases r1)
       (auto simp: validate_def save_best_def Let_def test_accuracies_append
          split: if_splits sum.splits,
        simp_all add: test_accuracies_def)
qed

lemma train_body_no_test: "test_accuracies (snd (snd (train_body L A it ls))) = []"
proof (cases ls)
  case (Pair l s)
  have v: "test_accuracies (snd (snd (validate L A it (l2, s2)))) = []" for l2 s2
    using validate_no_test [of L A it l2 s2] by (metis prod.collapse)
  show ?thesis
    unfolding Pair train_body_def
    using v by (simp add: Let_def split_def test_accuracies_append) (simp add: test_accuracies_def)
qed

lemma train_loop_no_test: "test_accuracies (snd (snd (train_loop L A its ls))) = []"
proof (induction its arbitrary: ls)
  case Nil
  show ?case by (simp add: test_accuracies_def)
next
  case (Cons it its)
  obtain rb ls1 eb where b: "train_body L A it ls = (rb, ls1, eb)"
    by (metis prod.exhaust)
  have eb: "test_accuracies eb = []"
    using train_body_no_test [of L A it ls] b by simp
  show ?case
    using Cons.IH [of ls1] b eb
    by (cases rb) (simp_all add: split_def test_accuracies_append)
qed

lemma indices_of_steps:
  "map fst ps = map (\<lambda>it. it + 1) its \<Longrightarrow> map (\<lambda>x. fst x - 1) ps = (its :: int list)"
proof -
  assume a: "map fst ps = map (\<lambda>it. it + 1) its"
  have "map (\<lambda>x. fst x - 1) ps = map (\<lambda>n. n - 1) (map fst ps)"
    by simp
  also have "\<dots> = map (\<lambda>n. n - 1) (map (\<lambda>it. it + 1) its)"
    by (simp only: a)
  also have "\<dots> = its"
    by (simp add: comp_def)
  finally show ?thesis .
qed

text \<open>
  Claim C9. After the loop \<^verbatim>\<open>Framework.train\<close> always evaluates on the checkpoint at
  \<^verbatim>\<open><ckpt_dir>/<model_name>.pth.tar\<close>. When initialisation succeeded and the loop ran
  to its end, no validation accuracy of the run exceeded 0 and that path named no file
  when the run began, \<^verbatim>\<open>train\<close> raises the "no checkpoint found" exception for that
  path. All the training iterations have run by then, nothing was written, and after the
  two closing lines and the blank line that \<^verbatim>\<open>eval\<close> prints first nothing follows: no
  test accuracy is produced.
\<close>

theorem test_evaluation_needs_a_written_checkpoint:
  assumes "fst (train_init L A s) = Inr start"
    and "fst (train_loop L A [start .. start + train_iter A - 1]
               (init_locals, fst (snd (train_init L A s)))) = None"
    and "\<forall>a \<in> set (val_accs (train_events L A s)). a \<le> 0"
    and "\<not> isfile (files s) (save_path A)"
  shows "fst (train L A s) = Inl (NoCheckpointFound (save_path A)) \<and>
         train_indices (train_events L A s) = [start .. start + train_iter A - 1] \<and>
         saves (train_events L A s) = [] \<and>
         test_accuracies (train_events L A s) = [] \<and>
         train_events L A s =
           snd (snd (train_init L A s)) @
           snd (snd (train_loop L A [start .. start + train_iter A - 1]
                       (init_locals, fst (snd (train_init L A s))))) @
           finish_lines A @ [Print []]"
proof -
  obtain s0 ev0 where i: "train_init L A s = (Inr start, s0, ev0)"
    using assms(1) by (metis fst_conv prod.exhaust)
  obtain l1 s1 ev1 where
    lp: "train_loop L A [start .. start + train_iter A - 1] (init_locals, s0) = (None, (l1, s1), ev1)"
    using assms(2) i by (metis fst_conv snd_conv prod.exhaust)
  note pj = train_trace_projections [OF i lp]
  note tr = train_loop_written [OF lp]
  note st = train_loop_steps [OF lp]
  have b0: "best_acc init_locals = 0" by (simp add: init_locals_def)
  have none: "\<not> (\<exists>a \<in> set (val_accs ev1). best_acc init_locals < a)"
    using assms(3) pj by (auto simp: val_accs_def b0)
  have "files s1 = files s0" using tr none by blast
  then have "\<not> isfile (files s1) (save_path A)"
    using train_init_quiet [OF i] assms(4) by simp
  then have ev: "eval L 10 10 2 (test_iter A) (Some (save_path A)) s1 =
      (Inl (NoCheckpointFound (save_path A)), s1, [Print []])"
    by (simp add: eval_def eval_dataset_missing)
  have run: "train L A s =
      (Inl (NoCheckpointFound (save_path A)), s1, ev0 @ ev1 @ finish_lines A @ [Print []])"
    using i lp ev by (simp add: train_def)
  have "map fst (batches ev1) = [start .. start + train_iter A - 1]"
    using conjunct1 [OF conjunct2 [OF conjunct2 [OF st]]] by simp
  then have "map fst (progress ev1) = map (\<lambda>it. it + 1) [start .. start + train_iter A - 1]"
    using conjunct1 [OF conjunct2 [OF st]] by (simp del: map_map)
  then have idx: "train_indices (train_events L A s) = [start .. start + train_iter A - 1]"
    using pj by (simp add: train_indices_def indices_of_steps)
  have w: "val_written ev1 = replicate (length (val_accs ev1)) False"
  proof -
    have "improvements b xs = replicate (length xs) False" if "\<not> (\<exists>a \<in> set xs. b < a)" for b :: real and xs
      using that by (induction xs arbitrary: b) (auto simp: max_def)
    then show ?thesis using tr none by simp
  qed
  have sv: "saves (train_events L A s) = []"
    using tr pj w by simp
  have ta: "test_accuracies (train_events L A s) = []"
    using train_init_quiet [OF i] train_loop_no_test [of L A "[start .. start + train_iter A - 1]" "(init_locals, s0)"] lp
    by (simp add: train_events_def run test_accuracies_append finish_lines_quiet)
       (simp add: test_accuracies_def)
  show ?thesis
    using run idx sv ta i lp by (simp add: train_events_def)
qed

theorem test_evaluation_needs_a_written_checkpoint_witness:
  "fst (train_init (demo_lib demo_zero) (demo_args 4 2) demo_state) = Inr 0 \<and>
   fst (train_loop (demo_lib demo_zero) (demo_args 4 2) [0 .. 0 + train_iter (demo_args 4 2) - 1]
          (init_locals, fst (snd (train_init (demo_lib demo_zero) (demo_args 4 2) demo_state)))) = None \<and>
   val_accs (train_events (demo_lib demo_zero) (demo_args 4 2) demo_state) = [0, 0] \<and>
   \<not> isfile (files demo_state) (save_path (demo_args 4 2)) \<and>
   fst (train (demo_lib demo_zero) (demo_args 4 2) demo_state) = Inl (NoCheckpointFound ''ckpt/m.pth.tar'') \<and>
   train_indices (train_events (demo_lib demo_zero) (demo_args 4 2) demo_state) = [0, 1, 2, 3]"
proof -
  have h1: "fst (train_init (demo_lib demo_zero) (demo_args 4 2) demo_state) = Inr 0"
    by (simp add: train_init_fresh demo_args_def)
  have h2: "fst (train_loop (demo_lib demo_zero) (demo_args 4 2) [0 .. 0 + train_iter (demo_args 4 2) - 1]
          (init_locals, fst (snd (train_init (demo_lib demo_zero) (demo_args 4 2) demo_state)))) = None"
    by (simp add: demo_run_defs)
  have a: "val_accs (train_events (demo_lib demo_zero) (demo_args 4 2) demo_state) = [0, 0]"
    by (simp add: train_events_def demo_zero_run val_accs_def)
  have h3: "\<forall>a \<in> set (val_accs (train_events (demo_lib demo_zero) (demo_args 4 2) demo_state)). a \<le> 0"
    by (simp add: a)
  have h4: "\<not> isfile (files demo_state) (save_path (demo_args 4 2))"
    by (simp add: isfile_def demo_state_def)
  have p: "save_path (demo_args 4 2) = ''ckpt/m.pth.tar''"
    by (simp add: save_path_def path_join_def demo_args_def)
  have u: "[0 .. 0 + train_iter (demo_args 4 2) - 1] = [0, 1, 2, 3]"
    by (simp add: demo_args_def upto.simps)
  note t = test_evaluation_needs_a_written_checkpoint [OF h1 h2 h3 h4]
  have c1: "fst (train (demo_lib demo_zero) (demo_args 4 2) demo_state) = Inl (NoCheckpointFound ''ckpt/m.pth.tar'')"
    using conjunct1 [OF t] by (simp only: p)
  have c2: "train_indices (train_events (demo_lib demo_zero) (demo_args 4 2) demo_state) = [0, 1, 2, 3]"
    using conjunct1 [OF conjunct2 [OF t]] by (simp only: u)
  show ?thesis
    using h1 h2 a h4 c1 c2 by (intro conjI)
qed

subsection \<open>Where the loop starts\<close>





subsection \<open>The running accumulators\<close>

text \<open>
  Claim C4. With \<^verbatim>\<open>val_step = 2\<close> the validation windows of a run of four iterations
  are the loop indices 0, 1 and 2, 3; the four batches of the instance yield the losses
  1, 2, 3 and 4. The accumulators are set to zero at the end of the iterations 0 and 2
  (line 156 tests \<^verbatim>\<open>it % val_step == 0\<close> after the iteration has been added and
  shown), not at the start of a window: when the second window starts, at index 2, they
  still hold the loss 2 and the one sample of iteration 1, and the average shown at index
  2 (step 3) is 5/2, the mean of the losses of iterations 1 and 2, while the average
  shown at index 3 (step 4) is 4 and leaves out iteration 2 of its own window.
\<close>

theorem accumulators_carry_over_into_window:
  "iter_sample (fst (fst (snd (train_loop (demo_lib demo_zero) (demo_args 4 2) [0, 1]
      (init_locals, demo_state))))) = 1 \<and>
   iter_loss (fst (fst (snd (train_loop (demo_lib demo_zero) (demo_args 4 2) [0, 1]
      (init_locals, demo_state))))) = 2 \<and>
   progress (train_events (demo_lib demo_zero) (demo_args 4 2) demo_state) =
     [(1, 1, 100), (2, 2, 100), (3, 5 / 2, 100), (4, 4, 100)]"
  by (simp add: train_events_def demo_zero_run progress_def) (simp add: demo_run_defs)

end
